theory Spec2Isabelle
  imports Complex_Main "HOL-Library.Monad_Syntax" "HOL-Library.AList"
begin

section \<open>Python values used by the synchronisation pipeline\<close>

text \<open>
  The pipeline of \<^verbatim>\<open>functions/update_data.py\<close> works on loosely typed provider payloads
  (the result of \<^verbatim>\<open>r.json()\<close>). They are modelled by the datatype \<open>json\<close>; a dictionary
  is an association list with string keys, in insertion order. Floating point numbers are left
  out of the value model. A string is a list of code points below 256.

  An exception is a value \<open>Exn name text\<close>: the name of its class and what \<^verbatim>\<open>str(e)\<close>
  gives. A computation that may raise returns \<open>exn + 'a\<close>; a block wrapped in
  \<^verbatim>\<open>try ... except Exception\<close> whose handler forgets the exception returns an option.
\<close>

datatype exn = Exn (exn_name: string) (exn_text: string)

datatype json =
    JNull
  | JBool bool
  | JInt int
  | JStr string
  | JList "json list"
  | JDict "(string \<times> json) list"

type_synonym pydict = "(string \<times> json) list"

definition andthen :: "exn + 'a \<Rightarrow> ('a \<Rightarrow> exn + 'b) \<Rightarrow> exn + 'b" where
  "andthen m f = (case m of Inl e \<Rightarrow> Inl e | Inr x \<Rightarrow> f x)"

text \<open>\<^verbatim>\<open>d.get(k)\<close> and \<^verbatim>\<open>d.get(k, default)\<close> on a dictionary.\<close>

definition dict_get_default :: "pydict \<Rightarrow> string \<Rightarrow> json \<Rightarrow> json" where
  "dict_get_default d k dflt = (case map_of d k of None \<Rightarrow> dflt | Some v \<Rightarrow> v)"

definition dict_get :: "pydict \<Rightarrow> string \<Rightarrow> json" where
  "dict_get d k = dict_get_default d k JNull"

text \<open>Truth value of an object, and \<^verbatim>\<open>a or b\<close>.\<close>

fun truthy :: "json \<Rightarrow> bool" where
  "truthy JNull = False"
| "truthy (JBool b) = b"
| "truthy (JInt i) = (i \<noteq> 0)"
| "truthy (JStr s) = (s \<noteq> [])"
| "truthy (JList xs) = (xs \<noteq> [])"
| "truthy (JDict d) = (d \<noteq> [])"

definition py_or :: "json \<Rightarrow> json \<Rightarrow> json" where
  "py_or a b = (if truthy a then a else b)"

fun type_name :: "json \<Rightarrow> string" where
  "type_name JNull = ''NoneType''"
| "type_name (JBool b) = ''bool''"
| "type_name (JInt i) = ''int''"
| "type_name (JStr s) = ''str''"
| "type_name (JList xs) = ''list''"
| "type_name (JDict d) = ''dict''"

definition no_attribute :: "json \<Rightarrow> string \<Rightarrow> exn" where
  "no_attribute v a =
     Exn ''AttributeError'' ([CHR 0x27] @ type_name v @ [CHR 0x27] @ '' object has no attribute ''
                              @ [CHR 0x27] @ a @ [CHR 0x27])"

text \<open>\<^verbatim>\<open>v.get(k)\<close> and \<^verbatim>\<open>v.get(k, default)\<close> on an arbitrary object: only a dictionary has the
  method.\<close>

fun obj_get :: "json \<Rightarrow> string \<Rightarrow> exn + json" where
  "obj_get (JDict d) k = Inr (dict_get d k)"
| "obj_get v k = Inl (no_attribute v ''get'')"

fun obj_get_default :: "json \<Rightarrow> string \<Rightarrow> json \<Rightarrow> exn + json" where
  "obj_get_default (JDict d) k dflt = Inr (dict_get_default d k dflt)"
| "obj_get_default v k dflt = Inl (no_attribute v ''get'')"

text \<open>\<^verbatim>\<open>len(v)\<close>.\<close>

fun py_len :: "json \<Rightarrow> exn + int" where
  "py_len (JStr s) = Inr (int (length s))"
| "py_len (JList xs) = Inr (int (length xs))"
| "py_len (JDict d) = Inr (int (length d))"
| "py_len v = Inl (Exn ''TypeError'' (''object of type '' @ [CHR 0x27] @ type_name v @ [CHR 0x27]
                                        @ '' has no len()''))"

text \<open>\<^verbatim>\<open>for x in v\<close>: the elements of a list, the characters of a string, the keys of a
  dictionary.\<close>

fun py_iter :: "json \<Rightarrow> exn + json list" where
  "py_iter (JList xs) = Inr xs"
| "py_iter (JStr s) = Inr (map (\<lambda>c. JStr [c]) s)"
| "py_iter (JDict d) = Inr (map (\<lambda>kv. JStr (fst kv)) d)"
| "py_iter v = Inl (Exn ''TypeError'' ([CHR 0x27] @ type_name v @ [CHR 0x27]
                                        @ '' object is not iterable''))"

text \<open>\<^verbatim>\<open>v[0]\<close> for a truthy \<open>v\<close>.\<close>

fun py_first :: "json \<Rightarrow> exn + json" where
  "py_first (JList (x # xs)) = Inr x"
| "py_first (JList []) = Inl (Exn ''IndexError'' ''list index out of range'')"
| "py_first (JStr (c # s)) = Inr (JStr [c])"
| "py_first (JStr []) = Inl (Exn ''IndexError'' ''string index out of range'')"
| "py_first (JDict d) = Inl (Exn ''KeyError'' ''0'')"
| "py_first v = Inl (Exn ''TypeError'' ([CHR 0x27] @ type_name v @ [CHR 0x27]
                                         @ '' object is not subscriptable''))"

section \<open>Strings and integers\<close>

definition isspace :: "char \<Rightarrow> bool" where
  "isspace c = ((of_char c :: nat) \<in> {9, 10, 11, 12, 13, 28, 29, 30, 31, 32, 133, 160})"

definition strip :: "string \<Rightarrow> string" where
  "strip s = rev (dropWhile isspace (rev (dropWhile isspace s)))"

definition ascii_digit :: "char \<Rightarrow> bool" where
  "ascii_digit c = (48 \<le> (of_char c :: nat) \<and> (of_char c :: nat) \<le> 57)"

text \<open>\<^verbatim>\<open>str.isdigit\<close> also accepts the superscript digits, which \<^verbatim>\<open>int\<close> rejects.\<close>

definition isdigit_char :: "char \<Rightarrow> bool" where
  "isdigit_char c = (ascii_digit c \<or> (of_char c :: nat) \<in> {178, 179, 185})"

definition isdigit :: "string \<Rightarrow> bool" where
  "isdigit s = (s \<noteq> [] \<and> list_all isdigit_char s)"

definition digit_val :: "char \<Rightarrow> int" where
  "digit_val c = int (of_char c) - 48"

definition dec_value :: "string \<Rightarrow> int" where
  "dec_value s = foldl (\<lambda>a c. 10 * a + digit_val c) 0 s"

fun no_double_underscore :: "string \<Rightarrow> bool" where
  "no_double_underscore (a # b # r) =
     (\<not> (a = CHR ''_'' \<and> b = CHR ''_'') \<and> no_double_underscore (b # r))"
| "no_double_underscore s = True"

definition int_literal :: "string \<Rightarrow> bool" where
  "int_literal b =
     (b \<noteq> [] \<and> list_all (\<lambda>c. ascii_digit c \<or> c = CHR ''_'') b \<and> hd b \<noteq> CHR ''_''
      \<and> last b \<noteq> CHR ''_'' \<and> no_double_underscore b
      \<and> length (filter ascii_digit b) \<le> 4300)"

text \<open>\<^verbatim>\<open>int(s)\<close> for a string: surrounding white space (the separators U+001C to U+001F,
  which \<^verbatim>\<open>str.strip\<close> removes, are not skipped), a sign, decimal digits with single
  underscores between them, at most 4300 digits. \<open>None\<close> is the \<^verbatim>\<open>ValueError\<close>.\<close>

definition int_space :: "char \<Rightarrow> bool" where
  "int_space c = ((of_char c :: nat) \<in> {9, 10, 11, 12, 13, 32, 133, 160})"

definition int_of_str :: "string \<Rightarrow> int option" where
  "int_of_str s =
     (let t = rev (dropWhile int_space (rev (dropWhile int_space s)));
          neg = (t \<noteq> [] \<and> hd t = CHR ''-'');
          b = (if t \<noteq> [] \<and> (hd t = CHR ''-'' \<or> hd t = CHR ''+'') then tl t else t)
      in if int_literal b
         then Some ((if neg then - 1 else 1) * dec_value (filter ascii_digit b))
         else None)"

text \<open>\<^verbatim>\<open>int(v)\<close> for an object; \<open>None\<close> when it raises.\<close>

fun py_int :: "json \<Rightarrow> int option" where
  "py_int (JInt i) = Some i"
| "py_int (JBool b) = Some (if b then 1 else 0)"
| "py_int (JStr s) = int_of_str s"
| "py_int v = None"

definition digit_char :: "nat \<Rightarrow> char" where
  "digit_char n = ''0123456789abcdef'' ! n"

function str_nat :: "int \<Rightarrow> string" where
  "str_nat n = (if n < 10 then [digit_char (nat n)]
                else str_nat (n div 10) @ [digit_char (nat (n mod 10))])"
  by pat_completeness auto
termination
  by (relation "measure (\<lambda>n. nat n)") auto

declare str_nat.simps [simp del]

text \<open>\<^verbatim>\<open>str(i)\<close> for an integer.\<close>

definition str_int :: "int \<Rightarrow> string" where
  "str_int i = (if i < 0 then CHR ''-'' # str_nat (- i) else str_nat i)"

fun join :: "string \<Rightarrow> string list \<Rightarrow> string" where
  "join sep [] = []"
| "join sep [x] = x"
| "join sep (x # y # r) = x @ sep @ join sep (y # r)"

definition printable :: "char \<Rightarrow> bool" where
  "printable c = (let n = (of_char c :: nat) in \<not> (n < 32 \<or> (127 \<le> n \<and> n \<le> 160) \<or> n = 173))"

definition repr_char :: "char \<Rightarrow> char \<Rightarrow> string" where
  "repr_char q c =
     (if c = q \<or> c = CHR 0x5C then [CHR 0x5C, c]
      else if c = CHR 0x09 then [CHR 0x5C, CHR ''t'']
      else if c = CHR 0x0A then [CHR 0x5C, CHR ''n'']
      else if c = CHR 0x0D then [CHR 0x5C, CHR ''r'']
      else if printable c then [c]
      else [CHR 0x5C, CHR ''x'', digit_char (of_char c div 16), digit_char (of_char c mod 16)])"

definition repr_str :: "string \<Rightarrow> string" where
  "repr_str s =
     (let q = (if CHR 0x27 \<in> set s \<and> CHR 0x22 \<notin> set s then CHR 0x22 else CHR 0x27)
      in [q] @ concat (map (repr_char q) s) @ [q])"

fun py_repr :: "json \<Rightarrow> string" where
  "py_repr JNull = ''None''"
| "py_repr (JBool b) = (if b then ''True'' else ''False'')"
| "py_repr (JInt i) = str_int i"
| "py_repr (JStr s) = repr_str s"
| "py_repr (JList xs) = ''['' @ join '', '' (map py_repr xs) @ '']''"
| "py_repr (JDict d) =
     ''{'' @ join '', '' (map (\<lambda>kv. repr_str (fst kv) @ '': '' @ py_repr (snd kv)) d) @ ''}''"

text \<open>\<^verbatim>\<open>str(v)\<close>.\<close>

fun py_str :: "json \<Rightarrow> string" where
  "py_str (JStr s) = s"
| "py_str v = py_repr v"

definition lower_char :: "char \<Rightarrow> char" where
  "lower_char c =
     (let n = (of_char c :: nat)
      in if (65 \<le> n \<and> n \<le> 90) \<or> (192 \<le> n \<and> n \<le> 222 \<and> n \<noteq> 215) then char_of (n + 32) else c)"

definition lower :: "string \<Rightarrow> string" where
  "lower s = map lower_char s"

section \<open>Calendar dates\<close>

text \<open>
  A \<^verbatim>\<open>datetime.date\<close> is modelled by its day number counted from 1970-01-01. The dates
  Python can represent are 0001-01-01 to 9999-12-31; arithmetic that leaves this range raises
  \<^verbatim>\<open>OverflowError\<close>, a time stamp outside it makes \<^verbatim>\<open>fromtimestamp\<close> raise.
\<close>

type_synonym date = int

definition date_min :: date where "date_min = - 719162"
definition date_max :: date where "date_max = 2932896"

definition is_leap :: "int \<Rightarrow> bool" where
  "is_leap y = (y mod 4 = 0 \<and> (y mod 100 \<noteq> 0 \<or> y mod 400 = 0))"

definition days_in_month :: "int \<Rightarrow> int \<Rightarrow> int" where
  "days_in_month y m =
     (if m = 2 then (if is_leap y then 29 else 28)
      else if m = 4 \<or> m = 6 \<or> m = 9 \<or> m = 11 then 30 else 31)"

definition days_from_civil :: "int \<Rightarrow> int \<Rightarrow> int \<Rightarrow> date" where
  "days_from_civil y m d =
     (let y1 = (if m \<le> 2 then y - 1 else y);
          era = y1 div 400;
          yoe = y1 - era * 400;
          doy = (153 * ((m + 9) mod 12) + 2) div 5 + d - 1;
          doe = yoe * 365 + yoe div 4 - yoe div 100 + doy
      in era * 146097 + doe - 719468)"

definition civil_from_days :: "date \<Rightarrow> int \<times> int \<times> int" where
  "civil_from_days z =
     (let z1 = z + 719468;
          era = z1 div 146097;
          doe = z1 - era * 146097;
          yoe = (doe - doe div 1460 + doe div 36524 - doe div 146096) div 365;
          doy = doe - (365 * yoe + yoe div 4 - yoe div 100);
          mp = (5 * doy + 2) div 153;
          d = doy - (153 * mp + 2) div 5 + 1;
          m = (if mp < 10 then mp + 3 else mp - 9);
          y = yoe + era * 400
      in (if m \<le> 2 then y + 1 else y, m, d))"

definition zero_pad :: "nat \<Rightarrow> string \<Rightarrow> string" where
  "zero_pad w s = replicate (w - length s) (CHR ''0'') @ s"

text \<open>\<^verbatim>\<open>d.isoformat()\<close>, which is also \<^verbatim>\<open>strftime('%Y-%m-%d')\<close> for the years 1000 to 9999.\<close>

definition isoformat :: "date \<Rightarrow> string" where
  "isoformat z =
     (case civil_from_days z of (y, m, d) \<Rightarrow>
        zero_pad 4 (str_int y) @ ''-'' @ zero_pad 2 (str_int m) @ ''-'' @ zero_pad 2 (str_int d))"

text \<open>\<^verbatim>\<open>datetime.fromtimestamp(ts, tz=timezone.utc).date()\<close>; \<open>None\<close> when it raises.\<close>

definition fromtimestamp :: "int \<Rightarrow> date option" where
  "fromtimestamp ts =
     (let z = ts div 86400 in if date_min \<le> z \<and> z \<le> date_max then Some z else None)"

text \<open>\<^verbatim>\<open>d + timedelta(days=1)\<close> and \<^verbatim>\<open>d - timedelta(days=1)\<close>; \<open>None\<close> is the
  \<^verbatim>\<open>OverflowError\<close>.\<close>

definition date_succ :: "date \<Rightarrow> date option" where
  "date_succ d = (if d + 1 \<le> date_max then Some (d + 1) else None)"

definition date_pred :: "date \<Rightarrow> date option" where
  "date_pred d = (if date_min \<le> d - 1 then Some (d - 1) else None)"

text \<open>
  \<^verbatim>\<open>datetime.strptime(s, "%Y-%m-%d").date()\<close>. The format is matched as the regular
  expression \<^verbatim>\<open>\d\d\d\d-(1[0-2]|0[1-9]|[1-9])-(3[01]|[12]\d|0[1-9]|[1-9]| [1-9])\<close> from the
  start of the string, the first alternative that matches being taken; text left over, the
  year 0 and a day the month does not have are errors. \<open>None\<close> is the \<^verbatim>\<open>ValueError\<close>.
\<close>

definition nonzero_digit :: "char \<Rightarrow> bool" where
  "nonzero_digit c = (ascii_digit c \<and> c \<noteq> CHR ''0'')"

fun parse_year :: "string \<Rightarrow> (int \<times> string) option" where
  "parse_year (a # b # c # d # r) =
     (if ascii_digit a \<and> ascii_digit b \<and> ascii_digit c \<and> ascii_digit d
      then Some (dec_value [a, b, c, d], r) else None)"
| "parse_year s = None"

fun parse_month :: "string \<Rightarrow> (int \<times> string) option" where
  "parse_month [] = None"
| "parse_month (a # r) =
     (if a = CHR ''1'' \<and> r \<noteq> [] \<and> hd r \<in> set ''012'' then Some (dec_value [a, hd r], tl r)
      else if a = CHR ''0'' \<and> r \<noteq> [] \<and> nonzero_digit (hd r) then Some (dec_value [hd r], tl r)
      else if nonzero_digit a then Some (dec_value [a], r)
      else None)"

fun parse_day :: "string \<Rightarrow> (int \<times> string) option" where
  "parse_day [] = None"
| "parse_day (a # r) =
     (if a = CHR ''3'' \<and> r \<noteq> [] \<and> hd r \<in> set ''01'' then Some (dec_value [a, hd r], tl r)
      else if a \<in> set ''12'' \<and> r \<noteq> [] \<and> ascii_digit (hd r) then Some (dec_value [a, hd r], tl r)
      else if a = CHR ''0'' \<and> r \<noteq> [] \<and> nonzero_digit (hd r) then Some (dec_value [hd r], tl r)
      else if nonzero_digit a then Some (dec_value [a], r)
      else if a = CHR '' '' \<and> r \<noteq> [] \<and> nonzero_digit (hd r) then Some (dec_value [hd r], tl r)
      else None)"

definition expect_dash :: "string \<Rightarrow> string option" where
  "expect_dash s = (case s of [] \<Rightarrow> None | c # r \<Rightarrow> if c = CHR ''-'' then Some r else None)"

definition strptime_ymd :: "string \<Rightarrow> date option" where
  "strptime_ymd s =
     do {
       (y, r1) \<leftarrow> parse_year s;
       r2 \<leftarrow> expect_dash r1;
       (m, r3) \<leftarrow> parse_month r2;
       r4 \<leftarrow> expect_dash r3;
       (d, r5) \<leftarrow> parse_day r4;
       if r5 = [] \<and> 1 \<le> y \<and> d \<le> days_in_month y m
       then Some (days_from_civil y m d) else None
     }"

section \<open>The Metric Deriver\<close>

text \<open>
  Library functions the deriver calls and whose results the pipeline only passes on:
  \<^verbatim>\<open>datetime.fromisoformat(s)\<close> followed by \<^verbatim>\<open>.date()\<close>, \<^verbatim>\<open>json.loads\<close>
  (\<open>None\<close> when they raise) and \<^verbatim>\<open>json.dumps(h, separators=(",", ":"))\<close> on a history map.
\<close>

record pylib =
  fromisoformat :: "string \<Rightarrow> date option"
  json_loads :: "string \<Rightarrow> json option"
  json_dumps :: "(string \<times> int) list \<Rightarrow> string"

text \<open>The dictionary \<^verbatim>\<open>compute_stats\<close> returns. Python's \<^verbatim>\<open>None\<close> is \<open>None\<close>.\<close>

record metrics =
  git_followers :: "int option"
  git_following :: "int option"
  git_public_repo :: "int option"
  git_original_repo :: "int option"
  git_authored_repo :: "int option"
  last_commit_date :: "string option"
  git_badges :: "string option"
  lc_total_solved :: "int option"
  lc_easy :: "int option"
  lc_medium :: "int option"
  lc_hard :: "int option"
  lc_ranking :: "int option"
  lc_lastsubmission :: "string option"
  lc_lastacceptedsubmission :: "string option"
  lc_cur_streak :: "int option"
  lc_max_streak :: "int option"
  lc_badges :: "string option"
  lc_language :: "string option"
  lc_submission_history :: "string option"
  gh_contribution_history :: "string option"

definition safe_int :: "json \<Rightarrow> int option" where
  "safe_int v = (if v \<noteq> JNull then py_int v else None)"

definition join_list :: "string list \<Rightarrow> string option" where
  "join_list vals = (if vals = [] then None else Some (join '','' vals))"

definition replace_Z :: "string \<Rightarrow> string" where
  "replace_Z s = concat (map (\<lambda>c. if c = CHR ''Z'' then ''+00:00'' else [c]) s)"

definition to_date_only :: "pylib \<Rightarrow> json \<Rightarrow> string option" where
  "to_date_only lib val =
     (if val = JNull then None
      else let s = strip (py_str val)
           in if s = [] then None
              else if isdigit s
                then do { ts \<leftarrow> int_of_str s; dt \<leftarrow> fromtimestamp ts; Some (isoformat dt) }
              else if length s \<ge> 10 \<and> s ! 4 = CHR ''-'' \<and> s ! 7 = CHR ''-''
                then Some (take 10 s)
              else map_option isoformat (fromisoformat lib (replace_Z s)))"

definition to_date_from_ts :: "json \<Rightarrow> string option" where
  "to_date_from_ts ts =
     (if ts = JNull then None
      else let s = strip (py_str ts)
           in if s = [] then None
              else if \<not> isdigit s then None
              else do { t \<leftarrow> int_of_str s; dt \<leftarrow> fromtimestamp t; Some (isoformat dt) })"

text \<open>\<^verbatim>\<open>(sub.get("statusDisplay") or "").lower() == "accepted"\<close>\<close>

definition is_accepted :: "json \<Rightarrow> exn + bool" where
  "is_accepted sub =
     andthen (obj_get sub ''statusDisplay'')
       (\<lambda>v. case py_or v (JStr []) of
               JStr s \<Rightarrow> Inr (lower s = ''accepted'')
             | w \<Rightarrow> Inl (no_attribute w ''lower''))"

text \<open>The loop over \<^verbatim>\<open>recent\<close> that stops at the first accepted submission.\<close>

fun first_accepted :: "json list \<Rightarrow> exn + string option" where
  "first_accepted [] = Inr None"
| "first_accepted (sub # rest) =
     andthen (is_accepted sub)
       (\<lambda>acc. if acc then andthen (obj_get sub ''timestamp'') (\<lambda>ats. Inr (to_date_from_ts ats))
               else first_accepted rest)"

definition submission_recency :: "pydict \<Rightarrow> exn + (string option \<times> string option)" where
  "submission_recency lc_prof =
     (let recent = py_or (dict_get lc_prof ''recentSubmissions'') (JList [])
      in if truthy recent
         then andthen (py_first recent) (\<lambda>r0.
              andthen (obj_get r0 ''timestamp'') (\<lambda>ts.
              andthen (py_iter recent) (\<lambda>subs.
              andthen (first_accepted subs) (\<lambda>lastaccepted.
                Inr (to_date_from_ts ts, lastaccepted)))))
         else Inr (None, None))"

text \<open>\<^verbatim>\<open>[str(x.get("languageName")) for x in lang_counts if x.get("languageName")]\<close>\<close>

fun language_names :: "json list \<Rightarrow> exn + string list" where
  "language_names [] = Inr []"
| "language_names (x # r) =
     andthen (obj_get x ''languageName'') (\<lambda>n.
     andthen (language_names r) (\<lambda>ns.
       Inr (if truthy n then py_str n # ns else ns)))"

definition languages_of :: "pydict \<Rightarrow> exn + string list" where
  "languages_of lc_lang =
     andthen (obj_get_default (dict_get_default lc_lang ''matchedUser'' (JDict []))
                ''languageProblemCount'' (JList [])) (\<lambda>lang_counts.
     andthen (py_iter lang_counts) language_names)"

subsection \<open>Streaks\<close>

text \<open>The first loop of \<^verbatim>\<open>_calc_streaks\<close>: the set \<^verbatim>\<open>days\<close>, kept as a list without
  repetitions. \<open>None\<close> is an exception, which the enclosing \<^verbatim>\<open>try\<close> catches.\<close>

fun streak_days :: "pydict \<Rightarrow> date list \<Rightarrow> date list option" where
  "streak_days [] days = Some days"
| "streak_days ((k, v) # r) days =
     (if v = JNull then streak_days r days
      else let s = strip k
           in if \<not> isdigit s then streak_days r days
              else do {
                ts \<leftarrow> int_of_str s;
                if ts \<le> 0 then streak_days r days
                else do { d \<leftarrow> fromtimestamp ts; streak_days r (List.insert d days) }
              })"

definition min_date :: "date list \<Rightarrow> date" where
  "min_date days = fold min (tl days) (hd days)"

definition max_date :: "date list \<Rightarrow> date" where
  "max_date days = fold max (tl days) (hd days)"

text \<open>The forward loop from the earliest to the latest day: the longest run.\<close>

function longest_run :: "date list \<Rightarrow> date \<Rightarrow> date \<Rightarrow> int \<Rightarrow> int \<Rightarrow> int option" where
  "longest_run days d end cur_streak max_streak =
     (if d \<le> end
      then (let cur1 = (if d \<in> set days then cur_streak + 1 else 0);
                max1 = (if d \<in> set days then max max_streak (cur_streak + 1) else max_streak)
            in case date_succ d of
                 None \<Rightarrow> None
               | Some d1 \<Rightarrow> longest_run days d1 end cur1 max1)
      else Some max_streak)"
  by pat_completeness auto
termination
  by (relation "measure (\<lambda>(days, d, end, c, m). nat (end + 1 - d))")
     (auto simp: date_succ_def split: if_splits)

declare longest_run.simps [simp del]

text \<open>The backward loop from today: the current run.\<close>

function current_run :: "date list \<Rightarrow> date \<Rightarrow> int \<Rightarrow> int option" where
  "current_run days d cur =
     (if d \<in> set days
      then (case date_pred d of None \<Rightarrow> None | Some d1 \<Rightarrow> current_run days d1 (cur + 1))
      else Some cur)"
  by pat_completeness auto
termination
  by (relation "measure (\<lambda>(days, d, c). nat (d - date_min + 1))")
     (auto simp: date_pred_def split: if_splits)

declare current_run.simps [simp del]

definition calc_streaks :: "date \<Rightarrow> json \<Rightarrow> int option \<times> int option" where
  "calc_streaks today sub_cal =
     (case sub_cal of
        JDict items \<Rightarrow>
          if items = [] then (None, None)
          else (case streak_days items [] of
                  None \<Rightarrow> (None, None)
                | Some days \<Rightarrow>
                    if days = [] then (Some 0, Some 0)
                    else (case longest_run days (min_date days) (max_date days) 0 0 of
                            None \<Rightarrow> (None, None)
                          | Some max_streak \<Rightarrow>
                              (case current_run days today 0 of
                                 None \<Rightarrow> (None, None)
                               | Some cur \<Rightarrow> (Some cur, Some max_streak))))
      | _ \<Rightarrow> (None, None))"

subsection \<open>Histories\<close>

text \<open>The date a key of the submission calendar is stored under in the history: the only
  place with a guard for milliseconds.\<close>

definition history_date :: "string \<Rightarrow> string option" where
  "history_date s =
     do {
       ts \<leftarrow> int_of_str s;
       d \<leftarrow> fromtimestamp (if ts > 10 ^ 10 then ts div 1000 else ts);
       Some (isoformat d)
     }"

fun lc_history_items :: "pydict \<Rightarrow> (string \<times> int) list \<Rightarrow> (string \<times> int) list option" where
  "lc_history_items [] h = Some h"
| "lc_history_items ((k, v) # r) h =
     (let s = strip k
      in if isdigit s
         then do {
           d \<leftarrow> history_date s;
           c \<leftarrow> py_int (py_or v (JInt 0));
           lc_history_items r (AList.update d c h)
         }
         else lc_history_items r h)"

definition lc_history_of :: "json \<Rightarrow> (string \<times> int) list option" where
  "lc_history_of sub_cal_raw =
     (case sub_cal_raw of
        JDict items \<Rightarrow> if items \<noteq> [] then lc_history_items items [] else None
      | _ \<Rightarrow> None)"

definition catch :: "exn + 'a \<Rightarrow> 'a option" where
  "catch m = (case m of Inl e \<Rightarrow> None | Inr x \<Rightarrow> Some x)"

fun contribution_days :: "json list \<Rightarrow> (string \<times> int) list \<Rightarrow> (string \<times> int) list option" where
  "contribution_days [] days = Some days"
| "contribution_days (d # r) days =
     do {
       day \<leftarrow> catch (obj_get d ''date'');
       cnt \<leftarrow> catch (obj_get d ''contributionCount'');
       if truthy day
       then do { c \<leftarrow> py_int (py_or cnt (JInt 0));
                 contribution_days r (AList.update (py_str day) c days) }
       else contribution_days r days
     }"

fun contribution_weeks :: "json list \<Rightarrow> (string \<times> int) list \<Rightarrow> (string \<times> int) list option" where
  "contribution_weeks [] days = Some days"
| "contribution_weeks (w # r) days =
     do {
       cd \<leftarrow> catch (obj_get w ''contributionDays'');
       ds \<leftarrow> catch (py_iter (py_or cd (JList [])));
       days1 \<leftarrow> contribution_days ds days;
       contribution_weeks r days1
     }"

definition gh_history_of :: "pydict option \<Rightarrow> (string \<times> int) list option" where
  "gh_history_of git_contri =
     do {
       days \<leftarrow> (case git_contri of
                  None \<Rightarrow> Some []
                | Some gc \<Rightarrow>
                    if gc \<noteq> [] then (case dict_get gc ''weeks'' of
                                      JList ws \<Rightarrow> contribution_weeks ws []
                                    | _ \<Rightarrow> Some [])
                    else Some []);
       if days \<noteq> [] then Some days else None
     }"

text \<open>The submission calendar: from the profile, replaced by the calendar end point's
  string when that parses to a truthy value.\<close>

definition sub_cal_raw_of :: "pylib \<Rightarrow> pydict \<Rightarrow> pydict option \<Rightarrow> json" where
  "sub_cal_raw_of lib lc_prof lc_calendar =
     (let sub_cal_raw = py_or (dict_get lc_prof ''submissionCalendar'') (JDict [])
      in case lc_calendar of
           None \<Rightarrow> sub_cal_raw
         | Some cal \<Rightarrow>
             if cal \<noteq> [] then (case dict_get cal ''submissionCalendar'' of
                                JStr text \<Rightarrow> (case json_loads lib text of
                                                None \<Rightarrow> sub_cal_raw
                                              | Some v \<Rightarrow> py_or v sub_cal_raw)
                              | _ \<Rightarrow> sub_cal_raw)
             else sub_cal_raw)"

subsection \<open>compute_stats\<close>

definition compute_stats ::
  "pylib \<Rightarrow> date \<Rightarrow> pydict \<Rightarrow> pydict \<Rightarrow> pydict \<Rightarrow> pydict \<Rightarrow> pydict option \<Rightarrow> pydict option
     \<Rightarrow> exn + metrics" where
  "compute_stats lib today git_json lc_prof lc_lang lc_bdg git_contri lc_calendar =
     (let followers = safe_int (dict_get git_json ''followers'');
          following = safe_int (dict_get git_json ''following'');
          public_repo = safe_int (dict_get git_json ''public_repo_count'');
          original_repos = py_or (dict_get git_json ''original_repos'') (JDict []);
          authored_forks = py_or (dict_get git_json ''authored_forks'') (JDict [])
      in andthen (py_len original_repos) (\<lambda>orig_count.
         andthen (py_len authored_forks) (\<lambda>authored_count.
         let overall = py_or (dict_get git_json ''overall_last_commit'') (JDict [])
         in andthen (obj_get overall ''date'') (\<lambda>raw_last_commit.
         let last_commit = to_date_only lib raw_last_commit;
             badges_map = py_or (dict_get git_json ''badges'') (JDict []);
             git_badges_list = (case badges_map of JDict b \<Rightarrow> map fst b | _ \<Rightarrow> []);
             totalSolved = safe_int (dict_get lc_prof ''totalSolved'');
             easy = safe_int (dict_get lc_prof ''easySolved'');
             medium = safe_int (dict_get lc_prof ''mediumSolved'');
             hard = safe_int (dict_get lc_prof ''hardSolved'');
             ranking = safe_int (dict_get lc_prof ''ranking'')
         in andthen (submission_recency lc_prof) (\<lambda>(lastsubmission, lastacceptedsubmission).
            andthen (languages_of lc_lang) (\<lambda>languages.
            let lc_badges_count = safe_int (dict_get lc_bdg ''badgesCount'');
                sub_cal_raw = sub_cal_raw_of lib lc_prof lc_calendar;
                streaks = calc_streaks today (py_or sub_cal_raw (JDict []));
                lc_history = lc_history_of sub_cal_raw;
                gh_history = gh_history_of git_contri
            in Inr \<lparr> git_followers = followers,
                     git_following = following,
                     git_public_repo = public_repo,
                     git_original_repo = Some orig_count,
                     git_authored_repo = Some authored_count,
                     last_commit_date = last_commit,
                     git_badges = join_list git_badges_list,
                     lc_total_solved = totalSolved,
                     lc_easy = easy,
                     lc_medium = medium,
                     lc_hard = hard,
                     lc_ranking = ranking,
                     lc_lastsubmission = lastsubmission,
                     lc_lastacceptedsubmission = lastacceptedsubmission,
                     lc_cur_streak = fst streaks,
                     lc_max_streak = snd streaks,
                     lc_badges = map_option str_int lc_badges_count,
                     lc_language = join_list languages,
                     lc_submission_history = map_option (json_dumps lib) lc_history,
                     gh_contribution_history = map_option (json_dumps lib) gh_history \<rparr>))))))"

section \<open>The Fetch Orchestrator\<close>

text \<open>The six calls of the Provider Gateway (\<^verbatim>\<open>functions/clients.py\<close>): each takes a handle
  and returns a payload or raises.\<close>

record providers =
  get_github_summary :: "string \<Rightarrow> exn + pydict"
  get_github_contributions :: "string \<Rightarrow> exn + pydict"
  get_leetcode_profile :: "string \<Rightarrow> exn + pydict"
  get_leetcode_language_stats :: "string \<Rightarrow> exn + pydict"
  get_leetcode_badges :: "string \<Rightarrow> exn + pydict"
  get_leetcode_calendar :: "string \<Rightarrow> exn + pydict"

text \<open>A row of the roster table; the text columns may hold \<^verbatim>\<open>NULL\<close>.\<close>

record roster_row =
  roll_number :: int
  github_username :: "string option"
  leetcode_username :: "string option"
  name :: "string option"

record work_item =
  roll :: int
  gh :: string
  lc :: string
  item_name :: string

text \<open>\<^verbatim>\<open>(x or '').strip()\<close>\<close>

definition or_empty_strip :: "string option \<Rightarrow> string" where
  "or_empty_strip x = strip (case x of None \<Rightarrow> [] | Some s \<Rightarrow> s)"

fun prepare_work :: "roster_row list \<Rightarrow> work_item list" where
  "prepare_work [] = []"
| "prepare_work (r # rows) =
     (let g = or_empty_strip (github_username r);
          l = or_empty_strip (leetcode_username r);
          nm = or_empty_strip (name r)
      in if g = [] \<and> l = [] then prepare_work rows
         else \<lparr> roll = roll_number r, gh = g, lc = l, item_name = nm \<rparr> # prepare_work rows)"

text \<open>Reading a local variable that no assignment has reached.\<close>

definition read_local :: "string \<Rightarrow> 'a option \<Rightarrow> exn + 'a" where
  "read_local v x =
     (case x of
        None \<Rightarrow> Inl (Exn ''UnboundLocalError''
                        (''cannot access local variable '' @ [CHR 0x27] @ v @ [CHR 0x27]
                         @ '' where it is not associated with a value''))
      | Some a \<Rightarrow> Inr a)"

text \<open>The body of the \<^verbatim>\<open>try\<close> in \<^verbatim>\<open>_fetch_and_compute\<close>. The payload variables start as
  empty dictionaries; \<^verbatim>\<open>git_contri\<close> and \<^verbatim>\<open>lc_calendar\<close> are assigned only under their
  handle's \<^verbatim>\<open>if\<close>.\<close>

definition fetch_body :: "providers \<Rightarrow> pylib \<Rightarrow> date \<Rightarrow> work_item \<Rightarrow> exn + metrics" where
  "fetch_body P lib today item =
     andthen (if gh item \<noteq> []
              then andthen (get_github_summary P (gh item)) (\<lambda>git_json.
                   andthen (get_github_contributions P (gh item)) (\<lambda>git_contri.
                     Inr (git_json, Some git_contri)))
              else Inr ([], None)) (\<lambda>(git_json, git_contri).
     andthen (if lc item \<noteq> []
              then andthen (get_leetcode_profile P (lc item)) (\<lambda>lc_prof.
                   andthen (get_leetcode_language_stats P (lc item)) (\<lambda>lc_lang.
                   andthen (get_leetcode_badges P (lc item)) (\<lambda>lc_bdg.
                   andthen (get_leetcode_calendar P (lc item)) (\<lambda>lc_calendar.
                     Inr (lc_prof, lc_lang, lc_bdg, Some lc_calendar)))))
              else Inr ([], [], [], None)) (\<lambda>(lc_prof, lc_lang, lc_bdg, lc_calendar).
     andthen (read_local ''git_contri'' git_contri) (\<lambda>gc.
     andthen (read_local ''lc_calendar'' lc_calendar) (\<lambda>cal.
       compute_stats lib today git_json lc_prof lc_lang lc_bdg (Some gc) (Some cal)))))"

text \<open>What a work item's future returns: \<^verbatim>\<open>(roll, stats, name, err)\<close>. The statistics are
  a dictionary of \<^verbatim>\<open>compute_stats\<close> or the empty dictionary, here \<open>None\<close>.\<close>

type_synonym fetched = "int \<times> metrics option \<times> string \<times> string option"

definition fetch_and_compute :: "providers \<Rightarrow> pylib \<Rightarrow> date \<Rightarrow> work_item \<Rightarrow> fetched" where
  "fetch_and_compute P lib today item =
     (case fetch_body P lib today item of
        Inr stats \<Rightarrow> (roll item, Some stats, item_name item, None)
      | Inl e \<Rightarrow> (roll item, None, item_name item,
                  Some (''roll='' @ str_int (roll item) @ '': '' @ exn_name e @ '': '' @ exn_text e)))"

section \<open>Collecting the results and the staleness decision\<close>

record notification =
  table_name :: string
  rollnumber :: int
  notif_name :: string
  reason :: string

definition reason_text :: string where
  "reason_text = ''No LC submission in last 3 days''"

record collected =
  results :: "(int \<times> metrics option \<times> string) list"
  errors :: "string list"
  to_add_notif :: "notification list"
  to_remove_notif :: "int list"

text \<open>\<^verbatim>\<open>stats.get("lc_lastsubmission")\<close>\<close>

definition last_submission_of :: "metrics option \<Rightarrow> string option" where
  "last_submission_of stats = (case stats of None \<Rightarrow> None | Some m \<Rightarrow> lc_lastsubmission m)"

text \<open>The decision taken for a successful result: \<^verbatim>\<open>flag\<close>.\<close>

definition stale_flag :: "date \<Rightarrow> string option \<Rightarrow> bool" where
  "stale_flag today lc_last_opt =
     (case lc_last_opt of
        None \<Rightarrow> True
      | Some lc_last \<Rightarrow>
          if lc_last \<noteq> []
          then (case strptime_ymd lc_last of
                  Some last_date \<Rightarrow> today - last_date > 3
                | None \<Rightarrow> True)
          else True)"

text \<open>One turn of the loop over the completed futures: what follows \<^verbatim>\<open>if err: ... continue\<close>,
  and the whole turn.\<close>

definition record_result ::
  "date \<Rightarrow> string \<Rightarrow> collected \<Rightarrow> int \<Rightarrow> metrics option \<Rightarrow> string \<Rightarrow> collected" where
  "record_result today source_table c roll_no stats nm =
     (let c1 = c\<lparr> results := results c @ [(roll_no, stats, nm)] \<rparr>;
          lc_last = last_submission_of stats
      in if stale_flag today lc_last
         then c1\<lparr> to_add_notif := to_add_notif c1 @
                     [\<lparr> table_name = source_table, rollnumber = roll_no, notif_name = nm,
                        reason = reason_text \<rparr>] \<rparr>
         else c1\<lparr> to_remove_notif := to_remove_notif c1 @ [roll_no] \<rparr>)"

fun collect_step :: "date \<Rightarrow> string \<Rightarrow> collected \<Rightarrow> fetched \<Rightarrow> collected" where
  "collect_step today source_table c (roll_no, stats, nm, err) =
     (case err of
        Some e \<Rightarrow> if e \<noteq> [] then c\<lparr> errors := errors c @ [e] \<rparr>
                  else record_result today source_table c roll_no stats nm
      | None \<Rightarrow> record_result today source_table c roll_no stats nm)"

definition collect :: "date \<Rightarrow> string \<Rightarrow> collected \<Rightarrow> fetched list \<Rightarrow> collected" where
  "collect today source_table c fs = foldl (collect_step today source_table) c fs"

definition no_results :: collected where
  "no_results = \<lparr> results = [], errors = [], to_add_notif = [], to_remove_notif = [] \<rparr>"

text \<open>\<^verbatim>\<open>as_completed\<close>: the futures in the order they complete. \<open>order\<close> lists the positions
  of the futures in that order; a list that is not a permutation of the positions stands for
  the order of submission.\<close>

definition as_completed :: "nat list \<Rightarrow> 'a list \<Rightarrow> 'a list" where
  "as_completed order futures =
     (if sort order = [0..<length futures] then map (\<lambda>i. futures ! i) order else futures)"

text \<open>The fetch stage of \<^verbatim>\<open>update_all_students\<close> (lines 279 to 359).\<close>

definition fetch_stage ::
  "providers \<Rightarrow> pylib \<Rightarrow> date \<Rightarrow> string \<Rightarrow> nat list \<Rightarrow> roster_row list \<Rightarrow> collected" where
  "fetch_stage P lib today source_table order rows =
     collect today source_table no_results
       (as_completed order (map (fetch_and_compute P lib today) (prepare_work rows)))"

section \<open>The Write Reconciler\<close>

text \<open>The settings read from the environment, after \<^verbatim>\<open>int(...)\<close> and \<^verbatim>\<open>float(...)\<close>, and
  their clamping. A \<^verbatim>\<open>float\<close> is a real number, not-a-number or an infinity; arithmetic on
  the finite ones is that of the reals.\<close>

datatype pyfloat = Finite real | NaN | PosInf | NegInf

record settings =
  batch_size :: int
  micro_batch_size :: int
  max_retries :: int
  base_sleep :: pyfloat

definition clamp_settings :: "int \<Rightarrow> int \<Rightarrow> int \<Rightarrow> pyfloat \<Rightarrow> settings" where
  "clamp_settings b m r s =
     (let batch = max 1 (min b 100);
          micro = max 1 (min m batch)
      in \<lparr> batch_size = batch, micro_batch_size = micro, max_retries = r, base_sleep = s \<rparr>)"

definition default_settings :: settings where
  "default_settings = clamp_settings 30 8 3 (Finite (1 / 2))"

text \<open>\<^verbatim>\<open>_chunks\<close>: the slices \<^verbatim>\<open>seq[i:i + size]\<close> for \<^verbatim>\<open>i\<close> in
  \<^verbatim>\<open>range(0, len(seq), size)\<close>.\<close>

function chunks_from :: "'a list \<Rightarrow> nat \<Rightarrow> nat \<Rightarrow> 'a list list" where
  "chunks_from seq sz i =
     (if sz = 0 \<or> length seq \<le> i then []
      else take sz (drop i seq) # chunks_from seq sz (i + sz))"
  by pat_completeness auto
termination
  by (relation "measure (\<lambda>(seq, sz, i). length seq - i)") auto

declare chunks_from.simps [simp del]

definition chunks :: "'a list \<Rightarrow> int \<Rightarrow> exn + 'a list list" where
  "chunks seq sz =
     (if sz = 0 then Inl (Exn ''ValueError'' ''range() arg 3 must not be zero'')
      else if sz < 0 then Inr []
      else Inr (chunks_from seq (nat sz) 0))"

text \<open>
  What one \<^verbatim>\<open>conn.execute(stmt)\<close> does: it returns, raises \<^verbatim>\<open>OperationalError\<close> or
  \<^verbatim>\<open>InterfaceError\<close>, or raises another exception. The store is a function from the number
  of statements executed so far to the outcome of the next one. A statement that returns has
  had its effect; of the two tables only the notification table is kept, as a map from
  (table name, roll number) to (name, reason).
\<close>

datatype outcome = Done | Transient exn | Failed exn

type_synonym notif_table = "string \<times> int \<Rightarrow> (string \<times> string) option"

record wstate =
  updated :: int
  werrors :: "string list"
  slept :: "real list"
  calls :: nat
  notifs :: notif_table

text \<open>\<^verbatim>\<open>base_sleep * (2 ** (attempt - 1))\<close>: the power is an integer, which is converted to a
  \<^verbatim>\<open>float\<close> for the product.\<close>

definition backoff :: "pyfloat \<Rightarrow> int \<Rightarrow> exn + pyfloat" where
  "backoff base attempt =
     (if 1024 \<le> attempt - 1 then Inl (Exn ''OverflowError'' ''int too large to convert to float'')
      else Inr (case base of Finite b \<Rightarrow> Finite (b * 2 ^ nat (attempt - 1)) | x \<Rightarrow> x))"

text \<open>\<^verbatim>\<open>time.sleep(secs)\<close>. The duration is converted to a 64-bit number of nanoseconds, must
  not be negative, and must not exceed what the platform's sleep takes, \<open>sleep_max\<close> (which is
  below \<open>2 ^ 63\<close> nanoseconds; just under it the platform may report \<^verbatim>\<open>OSError\<close> instead).
  The result is the time slept.\<close>

definition time_sleep :: "real \<Rightarrow> pyfloat \<Rightarrow> exn + real" where
  "time_sleep sleep_max secs =
     (case secs of
        NaN \<Rightarrow> Inl (Exn ''ValueError'' ''Invalid value NaN (not a number)'')
      | PosInf \<Rightarrow> Inl (Exn ''OverflowError'' ''timestamp out of range for platform time_t'')
      | NegInf \<Rightarrow> Inl (Exn ''OverflowError'' ''timestamp out of range for platform time_t'')
      | Finite x \<Rightarrow>
          if x * 10 ^ 9 < - (2 ^ 63) \<or> sleep_max < x
          then Inl (Exn ''OverflowError'' ''timestamp out of range for platform time_t'')
          else if x < 0 then Inl (Exn ''ValueError'' ''sleep length must be non-negative'')
          else Inr x)"

text \<open>
  The \<^verbatim>\<open>while True\<close> loop around \<^verbatim>\<open>conn.execute(stmt)\<close>, which the source has twice: in
  \<^verbatim>\<open>_execute_payload\<close> and for the notification upserts. \<open>effect\<close> is what a statement that
  returns does, \<open>exceeded\<close> and \<open>failed\<close> are the two error strings. An exception of
  \<^verbatim>\<open>time.sleep\<close> is raised inside the handler and leaves the loop (and the whole run).
\<close>

function retry_loop ::
  "settings \<Rightarrow> real \<Rightarrow> (nat \<Rightarrow> outcome) \<Rightarrow> (wstate \<Rightarrow> wstate) \<Rightarrow> (exn \<Rightarrow> string) \<Rightarrow> (exn \<Rightarrow> string)
     \<Rightarrow> int \<Rightarrow> wstate \<Rightarrow> exn + wstate" where
  "retry_loop cfg sleep_max db effect exceeded failed attempt st =
     (case db (calls st) of
        Done \<Rightarrow> Inr ((effect st)\<lparr> calls := calls st + 1 \<rparr>)
      | Transient oe \<Rightarrow>
          if attempt + 1 > max_retries cfg
          then Inr (st\<lparr> werrors := werrors st @ [exceeded oe], calls := calls st + 1 \<rparr>)
          else (case andthen (backoff (base_sleep cfg) (attempt + 1)) (time_sleep sleep_max) of
                  Inl e \<Rightarrow> Inl e
                | Inr secs \<Rightarrow>
                    retry_loop cfg sleep_max db effect exceeded failed (attempt + 1)
                      (st\<lparr> slept := slept st @ [secs], calls := calls st + 1 \<rparr>))
      | Failed e \<Rightarrow> Inr (st\<lparr> werrors := werrors st @ [failed e], calls := calls st + 1 \<rparr>))"
  by pat_completeness auto
termination
  by (relation "measure (\<lambda>(cfg, sleep_max, db, effect, exceeded, failed, attempt, st).
                   nat (max_retries cfg + 1 - attempt))") auto

declare retry_loop.simps [simp del]

definition execute_payload ::
  "settings \<Rightarrow> real \<Rightarrow> (nat \<Rightarrow> outcome) \<Rightarrow> 'a list \<Rightarrow> wstate \<Rightarrow> exn + wstate" where
  "execute_payload cfg sleep_max db payload_list st =
     (if payload_list = [] then Inr st
      else retry_loop cfg sleep_max db
             (\<lambda>s. s\<lparr> updated := updated s + int (length payload_list) \<rparr>)
             (\<lambda>oe. ''upsert retries exceeded ('' @ str_int (int (length payload_list))
                    @ '' rows): '' @ exn_name oe @ '': '' @ exn_text oe)
             (\<lambda>e. ''upsert error ('' @ str_int (int (length payload_list))
                   @ '' rows): '' @ exn_name e @ '': '' @ exn_text e)
             0 st)"

text \<open>The two nested loops over the outer and the micro chunks, which the source has for the
  results and for the notifications to add; \<open>act\<close> is the body for one micro chunk.\<close>

fun for_micros :: "('a list \<Rightarrow> wstate \<Rightarrow> exn + wstate) \<Rightarrow> 'a list list \<Rightarrow> wstate \<Rightarrow> exn + wstate" where
  "for_micros act [] st = Inr st"
| "for_micros act (micro # rest) st = andthen (act micro st) (for_micros act rest)"

fun for_outers ::
  "settings \<Rightarrow> ('a list \<Rightarrow> wstate \<Rightarrow> exn + wstate) \<Rightarrow> 'a list list \<Rightarrow> wstate \<Rightarrow> exn + wstate" where
  "for_outers cfg act [] st = Inr st"
| "for_outers cfg act (outer # rest) st =
     andthen (chunks outer (micro_batch_size cfg)) (\<lambda>micros.
     andthen (for_micros act micros st) (for_outers cfg act rest))"

definition for_batches ::
  "settings \<Rightarrow> ('a list \<Rightarrow> wstate \<Rightarrow> exn + wstate) \<Rightarrow> 'a list \<Rightarrow> wstate \<Rightarrow> exn + wstate" where
  "for_batches cfg act rs st =
     andthen (chunks rs (batch_size cfg)) (\<lambda>outers. for_outers cfg act outers st)"

text \<open>The upsert of the results (lines 397 to 403).\<close>

definition upsert_results ::
  "settings \<Rightarrow> real \<Rightarrow> (nat \<Rightarrow> outcome) \<Rightarrow> 'a list \<Rightarrow> wstate \<Rightarrow> exn + wstate" where
  "upsert_results cfg sleep_max db rs st = for_batches cfg (execute_payload cfg sleep_max db) rs st"

text \<open>The removal of the notifications of the individuals that are not stale (lines 405 to
  422): one \<^verbatim>\<open>delete\<close> a chunk, of the rows of the table with the fixed reason and a roll
  number of the chunk; any exception is recorded.\<close>

definition delete_notifs :: "string \<Rightarrow> int list \<Rightarrow> notif_table \<Rightarrow> notif_table" where
  "delete_notifs source_table roll_chunk t =
     (\<lambda>key. case t key of
               None \<Rightarrow> None
             | Some row \<Rightarrow>
                 if fst key = source_table \<and> snd row = reason_text \<and> snd key \<in> set roll_chunk
                 then None else Some row)"

definition remove_chunk :: "(nat \<Rightarrow> outcome) \<Rightarrow> string \<Rightarrow> int list \<Rightarrow> wstate \<Rightarrow> wstate" where
  "remove_chunk db source_table roll_chunk st =
     (if roll_chunk = [] then st
      else case db (calls st) of
             Done \<Rightarrow> st\<lparr> notifs := delete_notifs source_table roll_chunk (notifs st),
                        calls := calls st + 1 \<rparr>
           | Transient ne \<Rightarrow>
               st\<lparr> werrors := werrors st @
                      [''notif-remove batch: '' @ exn_name ne @ '': '' @ exn_text ne],
                    calls := calls st + 1 \<rparr>
           | Failed ne \<Rightarrow>
               st\<lparr> werrors := werrors st @
                      [''notif-remove batch: '' @ exn_name ne @ '': '' @ exn_text ne],
                    calls := calls st + 1 \<rparr>)"

definition remove_notifications ::
  "settings \<Rightarrow> (nat \<Rightarrow> outcome) \<Rightarrow> string \<Rightarrow> int list \<Rightarrow> wstate \<Rightarrow> exn + wstate" where
  "remove_notifications cfg db source_table rolls st =
     andthen (chunks rolls (max 1 (batch_size cfg))) (\<lambda>roll_chunks.
       Inr (foldl (\<lambda>s roll_chunk. remove_chunk db source_table roll_chunk s) st roll_chunks))"

text \<open>The upsert of the notifications to add (lines 424 to 450): one insert a micro chunk,
  which on a conflict of (table name, roll number) overwrites name and reason.\<close>

definition upsert_notifs :: "notification list \<Rightarrow> notif_table \<Rightarrow> notif_table" where
  "upsert_notifs micro t =
     foldl (\<lambda>t row. t((table_name row, rollnumber row) \<mapsto> (notif_name row, reason row))) t micro"

definition execute_notifications ::
  "settings \<Rightarrow> real \<Rightarrow> (nat \<Rightarrow> outcome) \<Rightarrow> notification list \<Rightarrow> wstate \<Rightarrow> exn + wstate" where
  "execute_notifications cfg sleep_max db micro st =
     (if micro = [] then Inr st
      else retry_loop cfg sleep_max db
             (\<lambda>s. s\<lparr> notifs := upsert_notifs micro (notifs s) \<rparr>)
             (\<lambda>oe. ''notif-upsert retries exceeded: '' @ exn_name oe @ '': '' @ exn_text oe)
             (\<lambda>ne. ''notif-upsert batch: '' @ exn_name ne @ '': '' @ exn_text ne)
             0 st)"

definition upsert_notifications ::
  "settings \<Rightarrow> real \<Rightarrow> (nat \<Rightarrow> outcome) \<Rightarrow> notification list \<Rightarrow> wstate \<Rightarrow> exn + wstate" where
  "upsert_notifications cfg sleep_max db rows st =
     for_batches cfg (execute_notifications cfg sleep_max db) rows st"

text \<open>The write stage of \<^verbatim>\<open>update_all_students\<close> (lines 361 to 452), inside one
  \<^verbatim>\<open>engine.begin()\<close>: the results, the removals, the notifications to add. The errors of
  the fetch stage are in \<open>werrors\<close> of the state it starts from. An exception leaves the
  block, whose transaction is rolled back.\<close>

definition write_stage ::
  "settings \<Rightarrow> real \<Rightarrow> (nat \<Rightarrow> outcome) \<Rightarrow> string \<Rightarrow> collected \<Rightarrow> wstate \<Rightarrow> exn + wstate" where
  "write_stage cfg sleep_max db source_table c st =
     andthen (upsert_results cfg sleep_max db (results c) st) (\<lambda>st1.
     andthen (remove_notifications cfg db source_table (to_remove_notif c) st1) (\<lambda>st2.
       upsert_notifications cfg sleep_max db (to_add_notif c) st2))"


section \<open>Quantities and example inputs of the statements\<close>

text \<open>The ceiling of \<open>n / k\<close>.\<close>

definition ceil_div :: "nat \<Rightarrow> nat \<Rightarrow> nat" where
  "ceil_div n k = (n + k - 1) div k"

text \<open>The micro chunks of a list, in the order the nested loops visit them.\<close>

definition micro_chunks :: "settings \<Rightarrow> 'a list \<Rightarrow> 'a list list" where
  "micro_chunks cfg rs =
     concat (map (\<lambda>outer. chunks_from outer (nat (micro_batch_size cfg)) 0)
               (chunks_from rs (nat (batch_size cfg)) 0))"

text \<open>The error strings of \<^verbatim>\<open>_execute_payload\<close> for a chunk of \<open>n\<close> rows.\<close>

definition retries_exceeded :: "nat \<Rightarrow> exn \<Rightarrow> string" where
  "retries_exceeded n oe =
     ''upsert retries exceeded ('' @ str_int (int n) @ '' rows): '' @ exn_name oe @ '': ''
       @ exn_text oe"

definition upsert_error :: "nat \<Rightarrow> exn \<Rightarrow> string" where
  "upsert_error n e =
     ''upsert error ('' @ str_int (int n) @ '' rows): '' @ exn_name e @ '': '' @ exn_text e"

text \<open>The longest sleep of a platform whose \<^verbatim>\<open>time_t\<close> has 64 bits, in seconds.\<close>

definition sleep_limit :: real where
  "sleep_limit = 9223372036"

text \<open>A write stage that has not started, with an empty notification table, and four stores:
  one whose first two statements fail with a lost connection, one that is out of reach for the
  first four statements, one that rejects its first statement, one that rejects the statement
  after a lost connection.\<close>

definition idle :: wstate where
  "idle = \<lparr> updated = 0, werrors = [], slept = [], calls = 0, notifs = (\<lambda>key. None) \<rparr>"

definition flaky_store :: "nat \<Rightarrow> outcome" where
  "flaky_store n = (if n < 2 then Transient (Exn ''OperationalError'' ''connection reset'') else Done)"

definition outage_store :: "nat \<Rightarrow> outcome" where
  "outage_store n = (if n < 4 then Transient (Exn ''OperationalError'' ''timeout'') else Done)"

definition rejecting_store :: "nat \<Rightarrow> outcome" where
  "rejecting_store n = (if n = 0 then Failed (Exn ''IntegrityError'' ''duplicate key'') else Done)"

definition late_rejecting_store :: "nat \<Rightarrow> outcome" where
  "late_rejecting_store n =
     (if n = 0 then Transient (Exn ''OperationalError'' ''connection reset'')
      else if n = 1 then Failed (Exn ''IntegrityError'' ''duplicate key'')
      else Done)"

definition accepting_store :: "nat \<Rightarrow> outcome" where
  "accepting_store n = Done"




definition unflagged :: "(string \<times> string) option \<Rightarrow> (string \<times> string) option" where
  "unflagged entry =
     (case entry of
        None \<Rightarrow> None
      | Some row \<Rightarrow> if snd row = ''No LC submission in last 3 days'' then None else Some row)"

text \<open>A notification table with a stale record for roll number 1 and a record with another
  reason for roll number 4.\<close>

definition old_notifs :: notif_table where
  "old_notifs =
     [(''roster'', 1) \<mapsto> (''Ann'', ''No LC submission in last 3 days''),
      (''roster'', 4) \<mapsto> (''Di'', ''No commit in last 7 days'')]"

text \<open>A stand-in for the library: \<^verbatim>\<open>fromisoformat\<close> and \<^verbatim>\<open>json.loads\<close> raise on every
  input, \<^verbatim>\<open>json.dumps\<close> writes the pairs without escapes.\<close>

definition dump_pair :: "string \<times> int \<Rightarrow> string" where
  "dump_pair kv = [CHR 0x22] @ fst kv @ [CHR 0x22] @ '':'' @ str_int (snd kv)"

definition dump_history :: "(string \<times> int) list \<Rightarrow> string" where
  "dump_history h = ''{'' @ join '','' (map dump_pair h) @ ''}''"

definition raises :: "string \<Rightarrow> 'a option" where
  "raises s = None"

definition stub_lib :: pylib where
  "stub_lib = \<lparr> fromisoformat = raises, json_loads = raises, json_dumps = dump_history \<rparr>"

text \<open>What the deriver returns when every payload is empty; the same with a last submission
  date; a profile whose only recent submission, of 2023-11-14, was not accepted.\<close>

definition empty_stats :: metrics where
  "empty_stats =
     \<lparr> git_followers = None, git_following = None, git_public_repo = None,
       git_original_repo = Some 0, git_authored_repo = Some 0, last_commit_date = None,
       git_badges = None, lc_total_solved = None, lc_easy = None, lc_medium = None,
       lc_hard = None, lc_ranking = None, lc_lastsubmission = None,
       lc_lastacceptedsubmission = None, lc_cur_streak = None, lc_max_streak = None,
       lc_badges = None, lc_language = None, lc_submission_history = None,
       gh_contribution_history = None \<rparr>"

definition dated :: "string \<Rightarrow> metrics" where
  "dated s = empty_stats\<lparr> lc_lastsubmission := Some s \<rparr>"


text \<open>A gateway every call of which returns an empty payload, and roster rows with one
  handle only.\<close>

definition returns_empty :: "string \<Rightarrow> exn + pydict" where
  "returns_empty handle = Inr []"

definition steady_providers :: providers where
  "steady_providers =
     \<lparr> get_github_summary = returns_empty, get_github_contributions = returns_empty,
       get_leetcode_profile = returns_empty, get_leetcode_language_stats = returns_empty,
       get_leetcode_badges = returns_empty, get_leetcode_calendar = returns_empty \<rparr>"

definition github_only_row :: roster_row where
  "github_only_row = \<lparr> roll_number = 1, github_username = Some ''alice'',
                        leetcode_username = None, name = Some ''Alice'' \<rparr>"

definition leetcode_only_row :: roster_row where
  "leetcode_only_row = \<lparr> roll_number = 2, github_username = Some [],
                          leetcode_username = Some ''bob'', name = Some ''Bob'' \<rparr>"

text \<open>The entries of a submission calendar by what the first loop of \<^verbatim>\<open>_calc_streaks\<close> does
  with them. An entry counts when its count is not null and its key, stripped, is a digit
  string with a positive value; its day is that value in days. An entry raises when its count
  is not null and its key, stripped, is a digit string that \<^verbatim>\<open>int\<close> rejects (a superscript
  digit, more than 4300 digits) or whose value lies beyond the year 9999.\<close>

definition entry_counts :: "string \<times> json \<Rightarrow> bool" where
  "entry_counts kv =
     (snd kv \<noteq> JNull \<and> isdigit (strip (fst kv))
      \<and> (case int_of_str (strip (fst kv)) of None \<Rightarrow> False | Some ts \<Rightarrow> 0 < ts))"

definition entry_day :: "string \<times> json \<Rightarrow> date" where
  "entry_day kv = (case int_of_str (strip (fst kv)) of None \<Rightarrow> 0 | Some ts \<Rightarrow> ts div 86400)"

definition entry_raises :: "string \<times> json \<Rightarrow> bool" where
  "entry_raises kv =
     (snd kv \<noteq> JNull \<and> isdigit (strip (fst kv))
      \<and> (case int_of_str (strip (fst kv)) of
            None \<Rightarrow> True
          | Some ts \<Rightarrow> 0 < ts \<and> 253402300799 < ts))"

text \<open>When the streaks are not available: the calendar is not a dictionary or is empty, an
  entry raises, or the day 9999-12-31 is among the days (the forward loop steps past it).\<close>

definition streak_unavailable :: "json \<Rightarrow> bool" where
  "streak_unavailable cal =
     (case cal of
        JDict items \<Rightarrow>
          items = [] \<or> (\<exists>kv\<in>set items. entry_raises kv)
          \<or> (\<exists>kv\<in>set items. entry_counts kv \<and> entry_day kv = date_max)
      | _ \<Rightarrow> True)"

text \<open>When a payload value gives no integer: it is missing or null, or \<^verbatim>\<open>int\<close> rejects it.\<close>

fun unavailable :: "json \<Rightarrow> bool" where
  "unavailable JNull = True"
| "unavailable (JBool b) = False"
| "unavailable (JInt i) = False"
| "unavailable (JStr s) = (int_of_str s = None)"
| "unavailable (JList xs) = True"
| "unavailable (JDict d) = True"

text \<open>Submission calendars: four active days in the week of 2023-11-14, one of them with a
  count of zero; a single active day, 9999-12-31; no usable entry; a key that is a superscript
  two.\<close>

definition week_calendar :: pydict where
  "week_calendar = [(''1699833600'', JInt 2), (''1699920000'', JInt 0),
                    (''1700006400'', JInt 1), (''1699660800'', JInt 1)]"

definition last_day_calendar :: pydict where
  "last_day_calendar = [(''253402300799'', JInt 1)]"


definition superscript_calendar :: pydict where
  "superscript_calendar = [([CHR 0xB2], JInt 1)]"

text \<open>Payloads of a profile with two original repositories and one authored fork, and what
  the deriver returns for them on 2023-11-14.\<close>

definition sample_git :: pydict where
  "sample_git =
     [(''followers'', JInt 12), (''following'', JStr '' 7 ''), (''public_repo_count'', JStr ''many''),
      (''original_repos'', JDict [(''tracker'', JInt 3), (''notes'', JNull)]),
      (''authored_forks'', JList [JStr ''linux''])]"

definition sample_profile :: pydict where
  "sample_profile =
     [(''totalSolved'', JInt 0), (''easySolved'', JNull), (''mediumSolved'', JBool True),
      (''hardSolved'', JList []), (''submissionCalendar'', JDict week_calendar)]"

definition sample_stats :: metrics where
  "sample_stats =
     \<lparr> git_followers = Some 12, git_following = Some 7, git_public_repo = None,
       git_original_repo = Some 2, git_authored_repo = Some 1, last_commit_date = None,
       git_badges = None, lc_total_solved = Some 0, lc_easy = None, lc_medium = Some 1,
       lc_hard = None, lc_ranking = None, lc_lastsubmission = None,
       lc_lastacceptedsubmission = None, lc_cur_streak = Some 2, lc_max_streak = Some 3,
       lc_badges = None, lc_language = None,
       lc_submission_history =
         Some (''{'' @ [CHR 0x22] @ ''2023-11-13'' @ [CHR 0x22] @ '':2,'' @ [CHR 0x22] @ ''2023-11-14''
               @ [CHR 0x22] @ '':0,'' @ [CHR 0x22] @ ''2023-11-15'' @ [CHR 0x22] @ '':1,'' @ [CHR 0x22]
               @ ''2023-11-11'' @ [CHR 0x22] @ '':1}''),
       gh_contribution_history = None \<rparr>"


section \<open>Properties of chunking\<close>

lemma ceil_div_add: "0 < k \<Longrightarrow> ceil_div (y + k) k = Suc (ceil_div y k)"
proof -
  assume k: "0 < k"
  then have "y + k + k - 1 = (y + k - 1) + k" by simp
  then have "(y + k + k - 1) div k = ((y + k - 1) + k) div k" by (rule arg_cong)
  also have "\<dots> = (y + k - 1) div k + 1" using k by (intro div_add_self2) simp
  also have "\<dots> = Suc ((y + k - 1) div k)" by (rule Suc_eq_plus1 [symmetric])
  finally show ?thesis unfolding ceil_div_def .
qed

lemma ceil_div_small: "0 < k \<Longrightarrow> 0 < y \<Longrightarrow> y \<le> k \<Longrightarrow> ceil_div y k = 1"
  unfolding ceil_div_def by (intro div_nat_eqI) simp_all

lemma ceil_div_0: "ceil_div 0 k = 0"
  by (cases k) (simp_all add: ceil_div_def)

lemma ceil_div_step:
  assumes "0 < sz" "i < n"
  shows "ceil_div (n - i) sz = Suc (ceil_div (n - (i + sz)) sz)"
proof (cases "i + sz \<le> n")
  case True
  then have "n - i = (n - (i + sz)) + sz" by simp
  then show ?thesis using ceil_div_add [OF assms(1), of "n - (i + sz)"] by simp
next
  case False
  then have a: "n - (i + sz) = 0" by simp
  have "ceil_div (n - i) sz = 1" using assms False by (intro ceil_div_small) simp_all
  then show ?thesis using a by (simp add: ceil_div_0)
qed

lemma chunks_from_concat: "0 < sz \<Longrightarrow> concat (chunks_from seq sz i) = drop i seq"
proof (induction seq sz i rule: chunks_from.induct)
  case (1 seq sz i)
  show ?case
  proof (cases "length seq \<le> i")
    case True
    then show ?thesis by (simp add: chunks_from.simps [of seq sz i])
  next
    case False
    with 1 have "concat (chunks_from seq sz (i + sz)) = drop (i + sz) seq" by simp
    moreover have "take sz (drop i seq) @ drop (i + sz) seq = drop i seq"
      by (metis add.commute append_take_drop_id drop_drop)
    ultimately show ?thesis using False 1(2)
      by (simp add: chunks_from.simps [of seq sz i])
  qed
qed

lemma chunks_from_length: "0 < sz \<Longrightarrow> length (chunks_from seq sz i) = ceil_div (length seq - i) sz"
proof (induction seq sz i rule: chunks_from.induct)
  case (1 seq sz i)
  show ?case
  proof (cases "length seq \<le> i")
    case True
    then show ?thesis using 1(2) by (simp add: chunks_from.simps [of seq sz i] ceil_div_0)
  next
    case False
    with 1 have "length (chunks_from seq sz (i + sz)) = ceil_div (length seq - (i + sz)) sz" by simp
    then show ?thesis using False 1(2) ceil_div_step [of sz i "length seq"]
      by (simp add: chunks_from.simps [of seq sz i])
  qed
qed

lemma chunks_from_sizes:
  "0 < sz \<Longrightarrow> c \<in> set (chunks_from seq sz i) \<Longrightarrow> c \<noteq> [] \<and> length c \<le> sz"
proof (induction seq sz i rule: chunks_from.induct)
  case (1 seq sz i)
  show ?case
  proof (cases "length seq \<le> i")
    case True
    then show ?thesis using 1(3) by (simp add: chunks_from.simps [of seq sz i])
  next
    case False
    then show ?thesis using 1 by (auto simp: chunks_from.simps [of seq sz i])
  qed
qed

lemma chunks_from_65:
  assumes "length seq = 65"
  shows "map length (chunks_from seq 30 0) = [30, 30, 5]"
  using assms
  by (simp add: chunks_from.simps [of seq 30 0] chunks_from.simps [of seq 30 30]
        chunks_from.simps [of seq 30 60] chunks_from.simps [of seq 30 90])


section \<open>Properties of the retry loop\<close>

lemma retry_loop_done:
  "db (calls st) = Done \<Longrightarrow>
   retry_loop cfg sleep_max db effect exceeded failed a st =
     Inr ((effect st)\<lparr> calls := calls st + 1 \<rparr>)"
  by (subst retry_loop.simps) simp

lemma retry_loop_failed:
  "db (calls st) = Failed e \<Longrightarrow>
   retry_loop cfg sleep_max db effect exceeded failed a st =
     Inr (st\<lparr> werrors := werrors st @ [failed e], calls := calls st + 1 \<rparr>)"
  by (subst retry_loop.simps) simp

lemma retry_loop_exceeded:
  "db (calls st) = Transient oe \<Longrightarrow> max_retries cfg \<le> a \<Longrightarrow>
   retry_loop cfg sleep_max db effect exceeded failed a st =
     Inr (st\<lparr> werrors := werrors st @ [exceeded oe], calls := calls st + 1 \<rparr>)"
  by (subst retry_loop.simps) simp

lemma sleep_accepted:
  assumes "0 \<le> a" and "a < max_retries cfg" and "max_retries cfg \<le> 1024"
      and "base_sleep cfg = Finite b" and "0 \<le> b"
      and "\<forall>j<nat (max_retries cfg). b * 2 ^ j \<le> sleep_max"
  shows "andthen (backoff (base_sleep cfg) (a + 1)) (time_sleep sleep_max) = Inr (b * 2 ^ nat a)"
proof -
  have "nat a < nat (max_retries cfg)" using assms(1,2) by simp
  with assms(6) have le: "b * 2 ^ nat a \<le> sleep_max" by blast
  have nn: "0 \<le> b * 2 ^ nat a" using assms(5) by simp
  have "\<not> b * 2 ^ nat a * 10 ^ 9 < - (2 ^ 63)"
  proof -
    have "(0::real) \<le> b * 2 ^ nat a * 10 ^ 9" using nn by simp
    then show ?thesis by simp
  qed
  then show ?thesis
    using assms(2,3,4) le nn by (simp add: backoff_def time_sleep_def andthen_def)
qed

lemma retry_loop_transient:
  assumes "\<forall>j<k. \<exists>e. db (calls st + j) = Transient e"
      and "0 \<le> a" and "a + int k \<le> max_retries cfg" and "max_retries cfg \<le> 1024"
      and "base_sleep cfg = Finite b" and "0 \<le> b"
      and "\<forall>j<nat (max_retries cfg). b * 2 ^ j \<le> sleep_max"
  shows "retry_loop cfg sleep_max db effect exceeded failed a st =
         retry_loop cfg sleep_max db effect exceeded failed (a + int k)
           (st\<lparr> slept := slept st @ map (\<lambda>j. b * 2 ^ (nat a + j)) [0..<k],
                calls := calls st + k \<rparr>)"
  using assms(1,2,3)
proof (induction k arbitrary: a st)
  case 0
  then show ?case by simp
next
  case (Suc k)
  from Suc.prems(1) obtain e where e: "db (calls st) = Transient e" by force
  let ?st1 = "st\<lparr> slept := slept st @ [b * 2 ^ nat a], calls := calls st + 1 \<rparr>"
  have lt: "a < max_retries cfg" using Suc.prems(3) by simp
  have sl: "andthen (backoff (base_sleep cfg) (a + 1)) (time_sleep sleep_max) = Inr (b * 2 ^ nat a)"
    using Suc.prems(2) lt assms(4,5,6,7) by (rule sleep_accepted)
  have step: "retry_loop cfg sleep_max db effect exceeded failed a st =
              retry_loop cfg sleep_max db effect exceeded failed (a + 1) ?st1"
    using e lt by (subst retry_loop.simps) (simp add: sl)
  have "\<forall>j<k. \<exists>e. db (calls ?st1 + j) = Transient e"
  proof (intro allI impI)
    fix j assume "j < k"
    then have "Suc j < Suc k" by simp
    with Suc.prems(1) obtain e' where "db (calls st + Suc j) = Transient e'" by blast
    then show "\<exists>e. db (calls ?st1 + j) = Transient e" by simp
  qed
  then have ih: "retry_loop cfg sleep_max db effect exceeded failed (a + 1) ?st1 =
         retry_loop cfg sleep_max db effect exceeded failed (a + 1 + int k)
           (?st1\<lparr> slept := slept ?st1 @ map (\<lambda>j. b * 2 ^ (nat (a + 1) + j)) [0..<k],
                calls := calls ?st1 + k \<rparr>)"
    using Suc.prems by (intro Suc.IH) simp_all
  have n1: "nat (a + 1) = Suc (nat a)" using Suc.prems(2) by simp
  have ml: "map (\<lambda>j. b * 2 ^ (nat a + j)) [0..<Suc k] =
            b * 2 ^ nat a # map (\<lambda>j. b * 2 ^ (nat (a + 1) + j)) [0..<k]"
    by (simp add: map_upt_Suc n1 del: upt_Suc)
  have ak: "a + 1 + int k = a + int (Suc k)" by simp
  show ?case
    unfolding step ih ml ak by simp
qed

lemma sleeps_bounded:
  assumes "0 \<le> (b::real)" and "m = 0 \<or> b * 2 ^ (m - 1) \<le> bound"
  shows "\<forall>j<m. b * 2 ^ j \<le> bound"
proof (intro allI impI)
  fix j assume j: "j < m"
  then have m: "b * 2 ^ (m - 1) \<le> bound" using assms(2) by auto
  have "j \<le> m - 1" using j by simp
  then have "(2::real) ^ j \<le> 2 ^ (m - 1)" by (intro power_increasing) simp_all
  then have "b * 2 ^ j \<le> b * 2 ^ (m - 1)" using assms(1) by (rule mult_left_mono)
  with m show "b * 2 ^ j \<le> bound" by simp
qed

lemma execute_payload_after:
  assumes "payload \<noteq> []" and "int k \<le> max_retries cfg" and "max_retries cfg \<le> 1024"
      and "base_sleep cfg = Finite b" and "0 \<le> b"
      and "\<forall>j<nat (max_retries cfg). b * 2 ^ j \<le> sleep_max"
      and "\<forall>j<k. \<exists>e. db (calls st + j) = Transient e"
  shows "execute_payload cfg sleep_max db payload st =
         retry_loop cfg sleep_max db
           (\<lambda>s. s\<lparr> updated := updated s + int (length payload) \<rparr>)
           (retries_exceeded (length payload)) (upsert_error (length payload)) (int k)
           (st\<lparr> slept := slept st @ map (\<lambda>j. b * 2 ^ j) [0..<k], calls := calls st + k \<rparr>)"
proof -
  have ex: "(\<lambda>oe. ''upsert retries exceeded ('' @ str_int (int (length payload))
                    @ '' rows): '' @ exn_name oe @ '': '' @ exn_text oe) =
            retries_exceeded (length payload)"
    by (rule ext) (simp add: retries_exceeded_def)
  have fa: "(\<lambda>e. ''upsert error ('' @ str_int (int (length payload))
                   @ '' rows): '' @ exn_name e @ '': '' @ exn_text e) =
            upsert_error (length payload)"
    by (rule ext) (simp add: upsert_error_def)
  have "retry_loop cfg sleep_max db (\<lambda>s. s\<lparr> updated := updated s + int (length payload) \<rparr>)
           (retries_exceeded (length payload)) (upsert_error (length payload)) 0 st =
        retry_loop cfg sleep_max db (\<lambda>s. s\<lparr> updated := updated s + int (length payload) \<rparr>)
           (retries_exceeded (length payload)) (upsert_error (length payload)) (0 + int k)
           (st\<lparr> slept := slept st @ map (\<lambda>j. b * 2 ^ (nat 0 + j)) [0..<k],
                calls := calls st + k \<rparr>)"
    using assms(7) _ _ assms(3,4,5,6) by (rule retry_loop_transient) (simp_all add: assms(2))
  moreover have "execute_payload cfg sleep_max db payload st =
        retry_loop cfg sleep_max db (\<lambda>s. s\<lparr> updated := updated s + int (length payload) \<rparr>)
           (retries_exceeded (length payload)) (upsert_error (length payload)) 0 st"
    unfolding execute_payload_def ex fa using assms(1) by simp
  ultimately show ?thesis by simp
qed

lemma execute_payload_retried:
  assumes "payload \<noteq> []" and "int k \<le> max_retries cfg" and "max_retries cfg \<le> 1024"
      and "base_sleep cfg = Finite b" and "0 \<le> b"
      and "\<forall>j<nat (max_retries cfg). b * 2 ^ j \<le> sleep_max"
      and "\<forall>j<k. \<exists>e. db (calls st + j) = Transient e"
      and "db (calls st + k) = Done"
  shows "execute_payload cfg sleep_max db payload st =
         Inr (st\<lparr> updated := updated st + int (length payload),
                  slept := slept st @ map (\<lambda>j. b * 2 ^ j) [0..<k],
                  calls := calls st + k + 1 \<rparr>)"
  unfolding execute_payload_after [OF assms(1-7)]
  using assms(8) by (subst retry_loop_done) simp_all

lemma execute_payload_rejected:
  assumes "payload \<noteq> []" and "int k \<le> max_retries cfg" and "max_retries cfg \<le> 1024"
      and "base_sleep cfg = Finite b" and "0 \<le> b"
      and "\<forall>j<nat (max_retries cfg). b * 2 ^ j \<le> sleep_max"
      and "\<forall>j<k. \<exists>e. db (calls st + j) = Transient e"
      and "db (calls st + k) = Failed e"
  shows "execute_payload cfg sleep_max db payload st =
         Inr (st\<lparr> werrors := werrors st @ [upsert_error (length payload) e],
                  slept := slept st @ map (\<lambda>j. b * 2 ^ j) [0..<k],
                  calls := calls st + k + 1 \<rparr>)"
  unfolding execute_payload_after [OF assms(1-7)]
  using assms(8) by (subst retry_loop_failed [where e = e]) simp_all

lemma execute_payload_exhausted:
  assumes "payload \<noteq> []" and "0 \<le> max_retries cfg" and "max_retries cfg \<le> 1024"
      and "base_sleep cfg = Finite b" and "0 \<le> b"
      and "\<forall>j<nat (max_retries cfg). b * 2 ^ j \<le> sleep_max"
      and "\<forall>j<nat (max_retries cfg). \<exists>e. db (calls st + j) = Transient e"
      and "db (calls st + nat (max_retries cfg)) = Transient oe"
  shows "execute_payload cfg sleep_max db payload st =
         Inr (st\<lparr> werrors := werrors st @ [retries_exceeded (length payload) oe],
                  slept := slept st @ map (\<lambda>j. b * 2 ^ j) [0..<nat (max_retries cfg)],
                  calls := calls st + nat (max_retries cfg) + 1 \<rparr>)"
proof -
  have k: "int (nat (max_retries cfg)) \<le> max_retries cfg" using assms(2) by simp
  show ?thesis
    unfolding execute_payload_after [OF assms(1) k assms(3-7)]
    using assms(2,8) by (subst retry_loop_exceeded [where oe = oe]) simp_all
qed

text \<open>A sleep that \<^verbatim>\<open>time.sleep\<close> refuses leaves the loop with its exception: with a negative
  base the first transient failure ends the write stage.\<close>

lemma retry_loop_sleep_raises:
  "db (calls st) = Transient oe \<Longrightarrow> a < max_retries cfg \<Longrightarrow>
   andthen (backoff (base_sleep cfg) (a + 1)) (time_sleep sleep_max) = Inl x \<Longrightarrow>
   retry_loop cfg sleep_max db effect exceeded failed a st = Inl x"
  by (subst retry_loop.simps) simp

lemma negative_base_sleep_raises:
  assumes "payload \<noteq> []" and "1 \<le> max_retries cfg" and "base_sleep cfg = Finite b" and "b < 0"
      and "- 9223372036 \<le> b" and "db (calls st) = Transient oe"
  shows "execute_payload cfg sleep_max db payload st =
           (if sleep_max < b
            then Inl (Exn ''OverflowError'' ''timestamp out of range for platform time_t'')
            else Inl (Exn ''ValueError'' ''sleep length must be non-negative''))"
proof -
  let ?x = "if sleep_max < b
            then Exn ''OverflowError'' ''timestamp out of range for platform time_t''
            else Exn ''ValueError'' ''sleep length must be non-negative''"
  have "\<not> b * 10 ^ 9 < - (2 ^ 63)" using assms(5) by simp
  then have "andthen (backoff (base_sleep cfg) (0 + 1)) (time_sleep sleep_max) = Inl ?x"
    using assms(3,4) by (simp add: backoff_def time_sleep_def andthen_def)
  with assms(6) have "retry_loop cfg sleep_max db effect exceeded failed 0 st = Inl ?x"
    for effect exceeded failed
    using assms(2) by (intro retry_loop_sleep_raises [where oe = oe]) simp_all
  then show ?thesis using assms(1) unfolding execute_payload_def by simp
qed

section \<open>Properties of the batched write\<close>

lemma chunks_positive: "0 < sz \<Longrightarrow> chunks seq sz = Inr (chunks_from seq (nat sz) 0)"
  by (simp add: chunks_def)

lemma clamp_settings_bounds:
  "1 \<le> batch_size (clamp_settings b m r s) \<and> batch_size (clamp_settings b m r s) \<le> 100
   \<and> 1 \<le> micro_batch_size (clamp_settings b m r s)
   \<and> micro_batch_size (clamp_settings b m r s) \<le> batch_size (clamp_settings b m r s)"
  by (simp add: clamp_settings_def Let_def)

lemma chunks_from_wellformed:
  assumes "0 < sz"
  shows "concat (chunks_from seq sz 0) = seq
         \<and> length (chunks_from seq sz 0) = ceil_div (length seq) sz
         \<and> (\<forall>c\<in>set (chunks_from seq sz 0). c \<noteq> [] \<and> length c \<le> sz)"
  using chunks_from_concat [OF assms, of seq 0] chunks_from_length [OF assms, of seq 0]
        chunks_from_sizes [OF assms]
  by auto

lemma for_micros_append:
  "for_micros act (xs @ ys) st = andthen (for_micros act xs st) (for_micros act ys)"
  by (induction xs arbitrary: st) (simp_all add: andthen_def split: sum.splits)

lemma for_outers_flat:
  assumes "0 < micro_batch_size cfg"
  shows "for_outers cfg act outers st =
         for_micros act
           (concat (map (\<lambda>outer. chunks_from outer (nat (micro_batch_size cfg)) 0) outers)) st"
proof (induction outers arbitrary: st)
  case Nil
  then show ?case by simp
next
  case (Cons outer outers)
  have c: "chunks outer (micro_batch_size cfg) = Inr (chunks_from outer (nat (micro_batch_size cfg)) 0)"
    using assms by (rule chunks_positive)
  show ?case
    by (simp add: c for_micros_append Cons.IH andthen_def split: sum.splits)
qed

lemma for_batches_flat:
  assumes "0 < batch_size cfg" and "0 < micro_batch_size cfg"
  shows "for_batches cfg act rs st = for_micros act (micro_chunks cfg rs) st"
  using chunks_positive [OF assms(1), of rs] for_outers_flat [OF assms(2)]
  by (simp add: for_batches_def micro_chunks_def andthen_def)

lemma concat_micro_chunks:
  assumes "0 < sz"
  shows "concat (concat (map (\<lambda>outer. chunks_from outer sz 0) outers)) = concat outers"
proof -
  have c: "concat (chunks_from seq sz 0) = seq" for seq :: "'a list"
    using chunks_from_wellformed [OF assms, of seq] by simp
  show ?thesis by (induction outers) (simp_all add: c)
qed

lemma length_micro_chunks:
  "length (concat (map (\<lambda>outer. chunks_from outer sz 0) outers)) =
   (\<Sum>outer\<leftarrow>outers. length (chunks_from outer sz 0))"
  by (induction outers) simp_all

lemma micro_chunks_wellformed:
  assumes "0 < batch_size cfg" and "0 < micro_batch_size cfg"
  shows "concat (micro_chunks cfg rs) = rs"
    and "\<forall>mc\<in>set (micro_chunks cfg rs). mc \<noteq> [] \<and> int (length mc) \<le> micro_batch_size cfg"
    and "length (micro_chunks cfg rs) =
           (\<Sum>oc\<leftarrow>chunks_from rs (nat (batch_size cfg)) 0.
               ceil_div (length oc) (nat (micro_batch_size cfg)))"
proof -
  have po: "0 < nat (batch_size cfg)" and pm: "0 < nat (micro_batch_size cfg)"
    using assms by simp_all
  show "concat (micro_chunks cfg rs) = rs"
  proof -
    have "concat (chunks_from rs (nat (batch_size cfg)) 0) = rs"
      using chunks_from_wellformed [OF po, of rs] by simp
    then show ?thesis by (simp add: micro_chunks_def concat_micro_chunks [OF pm])
  qed
  show "\<forall>mc\<in>set (micro_chunks cfg rs). mc \<noteq> [] \<and> int (length mc) \<le> micro_batch_size cfg"
  proof
    fix mc assume "mc \<in> set (micro_chunks cfg rs)"
    then obtain oc where "mc \<in> set (chunks_from oc (nat (micro_batch_size cfg)) 0)"
      by (auto simp: micro_chunks_def)
    with chunks_from_sizes [OF pm] have "mc \<noteq> [] \<and> length mc \<le> nat (micro_batch_size cfg)"
      by blast
    then show "mc \<noteq> [] \<and> int (length mc) \<le> micro_batch_size cfg"
      using assms(2) by (simp add: le_nat_iff)
  qed
  have "length (chunks_from oc (nat (micro_batch_size cfg)) 0) =
        ceil_div (length oc) (nat (micro_batch_size cfg))" for oc :: "'a list"
    using chunks_from_wellformed [OF pm, of oc] by simp
  then show "length (micro_chunks cfg rs) =
           (\<Sum>oc\<leftarrow>chunks_from rs (nat (batch_size cfg)) 0.
               ceil_div (length oc) (nat (micro_batch_size cfg)))"
    by (simp add: micro_chunks_def length_micro_chunks)
qed

lemma execute_payload_done:
  "payload \<noteq> [] \<Longrightarrow> db (calls st) = Done \<Longrightarrow>
   execute_payload cfg sleep_max db payload st =
     Inr (st\<lparr> updated := updated st + int (length payload), calls := calls st + 1 \<rparr>)"
  unfolding execute_payload_def by (simp add: retry_loop_done)

lemma for_micros_payload_done:
  assumes "\<forall>mc\<in>set micros. mc \<noteq> []" and "\<forall>j<length micros. db (calls st + j) = Done"
  shows "for_micros (execute_payload cfg sleep_max db) micros st =
         Inr (st\<lparr> updated := updated st + int (length (concat micros)),
                  calls := calls st + length micros \<rparr>)"
  using assms
proof (induction micros arbitrary: st)
  case Nil
  then show ?case by simp
next
  case (Cons mc micros)
  let ?st1 = "st\<lparr> updated := updated st + int (length mc), calls := calls st + 1 \<rparr>"
  have ne: "mc \<noteq> []" using Cons.prems(1) by simp
  have "db (calls st + 0) = Done" using Cons.prems(2) by blast
  then have first: "execute_payload cfg sleep_max db mc st = Inr ?st1"
    using ne by (simp add: execute_payload_done)
  have "\<forall>j<length micros. db (calls ?st1 + j) = Done"
  proof (intro allI impI)
    fix j assume "j < length micros"
    then have "Suc j < length (mc # micros)" by simp
    with Cons.prems(2) have "db (calls st + Suc j) = Done" by blast
    then show "db (calls ?st1 + j) = Done" by simp
  qed
  with Cons.prems(1) have "for_micros (execute_payload cfg sleep_max db) micros ?st1 =
         Inr (?st1\<lparr> updated := updated ?st1 + int (length (concat micros)),
                  calls := calls ?st1 + length micros \<rparr>)"
    by (intro Cons.IH) simp_all
  then show ?case by (simp add: first andthen_def)
qed

lemma upsert_results_flat:
  assumes "0 < batch_size cfg" and "0 < micro_batch_size cfg"
  shows "upsert_results cfg sleep_max db rs st =
         for_micros (execute_payload cfg sleep_max db) (micro_chunks cfg rs) st"
  unfolding upsert_results_def by (rule for_batches_flat [OF assms])

lemma upsert_results_done:
  assumes "0 < batch_size cfg" and "0 < micro_batch_size cfg"
      and "\<forall>j<length (micro_chunks cfg rs). db (calls st + j) = Done"
  shows "upsert_results cfg sleep_max db rs st =
         Inr (st\<lparr> updated := updated st + int (length rs),
                  calls := calls st + length (micro_chunks cfg rs) \<rparr>)"
proof -
  have "\<forall>mc\<in>set (micro_chunks cfg rs). mc \<noteq> []"
    using micro_chunks_wellformed(2) [OF assms(1,2), of rs] by blast
  from for_micros_payload_done [OF this assms(3)]
  show ?thesis
    by (simp add: upsert_results_flat [OF assms(1,2)] micro_chunks_wellformed(1) [OF assms(1,2)])
qed

lemma concat_split_at:
  assumes "i < length xss"
  shows "length (concat xss) =
         length (concat (take i xss)) + length (xss ! i) + length (concat (drop (Suc i) xss))"
proof -
  have "concat xss = concat (take i xss @ (xss ! i) # drop (Suc i) xss)"
    using id_take_nth_drop [OF assms] by (rule arg_cong)
  then have "concat xss = concat (take i xss) @ (xss ! i) @ concat (drop (Suc i) xss)"
    by (simp only: concat_append concat.simps)
  then have "length (concat xss) =
             length (concat (take i xss) @ (xss ! i) @ concat (drop (Suc i) xss))"
    by (rule arg_cong)
  then show ?thesis by (simp only: length_append add.assoc)
qed

lemma upsert_results_one_exhausted:
  fixes rs :: "'a list"
  assumes sizes: "0 < batch_size cfg" "0 < micro_batch_size cfg"
      and retries: "0 \<le> max_retries cfg" "max_retries cfg \<le> 1024"
      and base: "base_sleep cfg = Finite b" "0 \<le> b"
                "\<forall>j<nat (max_retries cfg). b * 2 ^ j \<le> sleep_max"
      and i: "i < length (micro_chunks cfg rs)"
      and before: "\<forall>j<i. db (calls st + j) = Done"
      and during: "\<forall>j<nat (max_retries cfg). \<exists>e. db (calls st + i + j) = Transient e"
                  "db (calls st + i + nat (max_retries cfg)) = Transient oe"
      and after: "\<forall>j. i < j \<and> j < length (micro_chunks cfg rs) \<longrightarrow>
                     db (calls st + nat (max_retries cfg) + j) = Done"
  shows "upsert_results cfg sleep_max db rs st =
         Inr (st\<lparr> updated := updated st + int (length rs)
                               - int (length (micro_chunks cfg rs ! i)),
                  werrors := werrors st @
                    [retries_exceeded (length (micro_chunks cfg rs ! i)) oe],
                  slept := slept st @ map (\<lambda>j. b * 2 ^ j) [0..<nat (max_retries cfg)],
                  calls := calls st + length (micro_chunks cfg rs) + nat (max_retries cfg) \<rparr>)"
proof -
  let ?mcs = "micro_chunks cfg rs"
  let ?mr = "nat (max_retries cfg)"
  let ?pre = "take i ?mcs" and ?post = "drop (Suc i) ?mcs"
  let ?act = "execute_payload cfg sleep_max db"
  note wf = micro_chunks_wellformed [OF sizes, of rs]
  have split: "?mcs = ?pre @ [?mcs ! i] @ ?post"
    using i by (simp add: id_take_nth_drop [symmetric])
  have ne: "\<forall>mc\<in>set ?mcs. mc \<noteq> []" using wf(2) by blast
  have ne_pre: "\<forall>mc\<in>set ?pre. mc \<noteq> []" using ne by (meson in_set_takeD)
  have ne_post: "\<forall>mc\<in>set ?post. mc \<noteq> []" using ne by (meson in_set_dropD)
  have ne_i: "?mcs ! i \<noteq> []" using ne i by simp
  have len_pre: "length ?pre = i" using i by simp
  let ?st1 = "st\<lparr> updated := updated st + int (length (concat ?pre)), calls := calls st + i \<rparr>"
  have p1: "for_micros ?act ?pre st = Inr ?st1"
    using for_micros_payload_done [OF ne_pre, of db st cfg sleep_max] before i
    by (simp add: min_def)
  let ?st2 = "?st1\<lparr> werrors := werrors ?st1 @ [retries_exceeded (length (?mcs ! i)) oe],
                    slept := slept ?st1 @ map (\<lambda>j. b * 2 ^ j) [0..<?mr],
                    calls := calls ?st1 + ?mr + 1 \<rparr>"
  have p2: "?act (?mcs ! i) ?st1 = Inr ?st2"
    using ne_i retries base
  proof (rule execute_payload_exhausted)
    show "\<forall>j<?mr. \<exists>e. db (calls ?st1 + j) = Transient e" using during(1) by simp
    show "db (calls ?st1 + ?mr) = Transient oe" using during(2) by simp
  qed
  have done_post: "\<forall>j<length ?post. db (calls ?st2 + j) = Done"
  proof (intro allI impI)
    fix j assume j: "j < length ?post"
    then have "i < Suc i + j \<and> Suc i + j < length ?mcs" by simp
    with after have d: "db (calls st + ?mr + (Suc i + j)) = Done" by blast
    have eq: "calls ?st2 + j = calls st + ?mr + (Suc i + j)" by simp
    show "db (calls ?st2 + j) = Done" unfolding eq by (rule d)
  qed
  have p3: "for_micros ?act ?post ?st2 =
            Inr (?st2\<lparr> updated := updated ?st2 + int (length (concat ?post)),
                       calls := calls ?st2 + length ?post \<rparr>)"
    using ne_post done_post by (rule for_micros_payload_done)
  have split': "?mcs = ?pre @ (?mcs ! i) # ?post"
    using i by (rule id_take_nth_drop)
  have a0: "for_micros ?act ?mcs st = for_micros ?act (?pre @ (?mcs ! i) # ?post) st"
    using split' by (rule arg_cong [where f = "\<lambda>m. for_micros ?act m st"])
  have a1: "for_micros ?act (?pre @ (?mcs ! i) # ?post) st =
            for_micros ?act ((?mcs ! i) # ?post) ?st1"
    unfolding for_micros_append p1 by (simp add: andthen_def)
  have a2: "for_micros ?act ((?mcs ! i) # ?post) ?st1 = for_micros ?act ?post ?st2"
    unfolding for_micros.simps p2 by (simp add: andthen_def)
  have run: "for_micros ?act ?mcs st =
            Inr (?st2\<lparr> updated := updated ?st2 + int (length (concat ?post)),
                       calls := calls ?st2 + length ?post \<rparr>)"
  proof -
    note a0
    also note a1
    also note a2
    also note p3
    finally show ?thesis .
  qed
  have "length rs = length (concat ?pre) + length (?mcs ! i) + length (concat ?post)"
    using concat_split_at [OF i] by (simp only: wf(1))
  then have cnt: "int (length (concat ?pre)) + int (length (concat ?post)) =
             int (length rs) - int (length (?mcs ! i))"
    by simp
  have cl: "calls st + i + ?mr + 1 + length ?post = calls st + length ?mcs + ?mr"
    using i by simp
  show ?thesis
    unfolding upsert_results_flat [OF sizes] run
    using cnt cl by simp
qed

text \<open>
  Claim C7. Let the base sleep be a number \<open>b \<ge> 0\<close>, the number of retries between 0 and
  1024, and the longest sleep \<open>b * 2 ^ (max_retries - 1)\<close> one the platform accepts. A
  micro-chunk write that fails with a transient storage error is retried after sleeping
  \<open>b * 2 ^ (attempt - 1)\<close>, at most \<open>max_retries\<close> times (3 by default, with a base of one
  half). A chunk that succeeds on a retry adds all its rows to the updated count and records
  no error. When the retries are used up, one error string with the chunk's row count and the
  cause is recorded and only that chunk is given up: in the write of a whole list of results
  every other micro chunk is still written. Any other error, at the first attempt or after
  retries, is recorded and ends the chunk at once, without a further sleep or attempt.
\<close>

theorem retry_policy:
  fixes payload rs :: "'a list"
  assumes "payload \<noteq> []"
      and "base_sleep cfg = Finite b" and "0 \<le> b"
      and "0 \<le> max_retries cfg" and "max_retries cfg \<le> 1024"
      and "max_retries cfg = 0 \<or> b * 2 ^ (nat (max_retries cfg) - 1) \<le> sleep_max"
  shows "(int k \<le> max_retries cfg \<and> (\<forall>j<k. \<exists>e. db (calls st + j) = Transient e)
            \<and> db (calls st + k) = Done \<longrightarrow>
          execute_payload cfg sleep_max db payload st =
            Inr (st\<lparr> updated := updated st + int (length payload),
                     slept := slept st @ map (\<lambda>j. b * 2 ^ j) [0..<k],
                     calls := calls st + k + 1 \<rparr>))
       \<and> ((\<forall>j<nat (max_retries cfg). \<exists>e. db (calls st + j) = Transient e)
            \<and> db (calls st + nat (max_retries cfg)) = Transient oe \<longrightarrow>
          execute_payload cfg sleep_max db payload st =
            Inr (st\<lparr> werrors := werrors st @ [retries_exceeded (length payload) oe],
                     slept := slept st @ map (\<lambda>j. b * 2 ^ j) [0..<nat (max_retries cfg)],
                     calls := calls st + nat (max_retries cfg) + 1 \<rparr>))
       \<and> (0 < batch_size cfg \<and> 0 < micro_batch_size cfg \<and> i < length (micro_chunks cfg rs)
            \<and> (\<forall>j<i. db (calls st + j) = Done)
            \<and> (\<forall>j<nat (max_retries cfg). \<exists>e. db (calls st + i + j) = Transient e)
            \<and> db (calls st + i + nat (max_retries cfg)) = Transient oe
            \<and> (\<forall>j. i < j \<and> j < length (micro_chunks cfg rs) \<longrightarrow>
                   db (calls st + nat (max_retries cfg) + j) = Done) \<longrightarrow>
          upsert_results cfg sleep_max db rs st =
            Inr (st\<lparr> updated := updated st + int (length rs)
                                  - int (length (micro_chunks cfg rs ! i)),
                     werrors := werrors st @
                       [retries_exceeded (length (micro_chunks cfg rs ! i)) oe],
                     slept := slept st @ map (\<lambda>j. b * 2 ^ j) [0..<nat (max_retries cfg)],
                     calls := calls st + length (micro_chunks cfg rs) + nat (max_retries cfg) \<rparr>))
       \<and> (int k \<le> max_retries cfg \<and> (\<forall>j<k. \<exists>e. db (calls st + j) = Transient e)
            \<and> db (calls st + k) = Failed e \<longrightarrow>
          execute_payload cfg sleep_max db payload st =
            Inr (st\<lparr> werrors := werrors st @ [upsert_error (length payload) e],
                     slept := slept st @ map (\<lambda>j. b * 2 ^ j) [0..<k],
                     calls := calls st + k + 1 \<rparr>))
       \<and> retries_exceeded n oe =
           ''upsert retries exceeded ('' @ str_int (int n) @ '' rows): '' @ exn_name oe @ '': ''
             @ exn_text oe
       \<and> upsert_error n e =
           ''upsert error ('' @ str_int (int n) @ '' rows): '' @ exn_name e @ '': '' @ exn_text e
       \<and> max_retries default_settings = 3 \<and> base_sleep default_settings = Finite (1 / 2)"
proof -
  have sl: "\<forall>j<nat (max_retries cfg). b * 2 ^ j \<le> sleep_max"
    using assms(3) _ by (rule sleeps_bounded) (use assms(4,6) in auto)
  have A: "execute_payload cfg sleep_max db payload st =
            Inr (st\<lparr> updated := updated st + int (length payload),
                     slept := slept st @ map (\<lambda>j. b * 2 ^ j) [0..<k],
                     calls := calls st + k + 1 \<rparr>)"
    if "int k \<le> max_retries cfg \<and> (\<forall>j<k. \<exists>e. db (calls st + j) = Transient e)
            \<and> db (calls st + k) = Done"
    using assms(1) _ assms(5,2,3) sl
    by (rule execute_payload_retried) (use that in simp_all)
  have B: "execute_payload cfg sleep_max db payload st =
            Inr (st\<lparr> werrors := werrors st @ [retries_exceeded (length payload) oe],
                     slept := slept st @ map (\<lambda>j. b * 2 ^ j) [0..<nat (max_retries cfg)],
                     calls := calls st + nat (max_retries cfg) + 1 \<rparr>)"
    if "(\<forall>j<nat (max_retries cfg). \<exists>e. db (calls st + j) = Transient e)
            \<and> db (calls st + nat (max_retries cfg)) = Transient oe"
    using assms(1,4,5,2,3) sl
    by (rule execute_payload_exhausted) (use that in simp_all)
  have C: "upsert_results cfg sleep_max db rs st =
            Inr (st\<lparr> updated := updated st + int (length rs)
                                  - int (length (micro_chunks cfg rs ! i)),
                     werrors := werrors st @
                       [retries_exceeded (length (micro_chunks cfg rs ! i)) oe],
                     slept := slept st @ map (\<lambda>j. b * 2 ^ j) [0..<nat (max_retries cfg)],
                     calls := calls st + length (micro_chunks cfg rs) + nat (max_retries cfg) \<rparr>)"
    if h: "0 < batch_size cfg \<and> 0 < micro_batch_size cfg \<and> i < length (micro_chunks cfg rs)
            \<and> (\<forall>j<i. db (calls st + j) = Done)
            \<and> (\<forall>j<nat (max_retries cfg). \<exists>e. db (calls st + i + j) = Transient e)
            \<and> db (calls st + i + nat (max_retries cfg)) = Transient oe
            \<and> (\<forall>j. i < j \<and> j < length (micro_chunks cfg rs) \<longrightarrow>
                   db (calls st + nat (max_retries cfg) + j) = Done)"
  proof (rule upsert_results_one_exhausted)
    show "0 < batch_size cfg" "0 < micro_batch_size cfg" "i < length (micro_chunks cfg rs)"
      "\<forall>j<i. db (calls st + j) = Done"
      "\<forall>j<nat (max_retries cfg). \<exists>e. db (calls st + i + j) = Transient e"
      "db (calls st + i + nat (max_retries cfg)) = Transient oe"
      "\<forall>j. i < j \<and> j < length (micro_chunks cfg rs) \<longrightarrow>
                   db (calls st + nat (max_retries cfg) + j) = Done"
      using h by blast+
  qed (rule assms(4,5,2,3) sl)+
  have D: "execute_payload cfg sleep_max db payload st =
            Inr (st\<lparr> werrors := werrors st @ [upsert_error (length payload) e],
                     slept := slept st @ map (\<lambda>j. b * 2 ^ j) [0..<k],
                     calls := calls st + k + 1 \<rparr>)"
    if "int k \<le> max_retries cfg \<and> (\<forall>j<k. \<exists>e. db (calls st + j) = Transient e)
            \<and> db (calls st + k) = Failed e"
    using assms(1) _ assms(5,2,3) sl
    by (rule execute_payload_rejected) (use that in simp_all)
  have E: "retries_exceeded n oe =
           ''upsert retries exceeded ('' @ str_int (int n) @ '' rows): '' @ exn_name oe @ '': ''
             @ exn_text oe"
    by (simp add: retries_exceeded_def)
  have F: "upsert_error n e =
           ''upsert error ('' @ str_int (int n) @ '' rows): '' @ exn_name e @ '': '' @ exn_text e"
    by (simp add: upsert_error_def)
  have G: "max_retries default_settings = 3" "base_sleep default_settings = Finite (1 / 2)"
    by (simp_all add: default_settings_def clamp_settings_def)
  show ?thesis
    by (intro conjI impI) (rule A B C D E F G, assumption?)+
qed

lemma str_int_3: "str_int 3 = ''3''"
  by (simp add: str_int_def str_nat.simps digit_char_def)

lemma str_int_8: "str_int 8 = ''8''"
  by (simp add: str_int_def str_nat.simps digit_char_def)

lemma default_settings_fields:
  "batch_size default_settings = 30" "micro_batch_size default_settings = 8"
  "max_retries default_settings = 3" "base_sleep default_settings = Finite (1 / 2)"
  by (simp_all add: default_settings_def clamp_settings_def)

lemma micro_chunks_11:
  "micro_chunks default_settings [1, 2, 3, 4, 5, 6, 7, 8, 9, 10, 11 :: int] =
     [[1, 2, 3, 4, 5, 6, 7, 8], [9, 10, 11]]"
  by (simp add: micro_chunks_def default_settings_fields chunks_from.simps [of _ 30 0]
        chunks_from.simps [of _ 30 30] chunks_from.simps [of _ 8 0] chunks_from.simps [of _ 8 8]
        chunks_from.simps [of _ 8 16])

theorem retry_policy_witness:
  "execute_payload default_settings sleep_limit flaky_store [10::int, 20, 30] idle =
     Inr \<lparr> updated = 3, werrors = [], slept = [1 / 2, 1], calls = 3, notifs = (\<lambda>key. None) \<rparr>
   \<and> execute_payload default_settings sleep_limit outage_store [10::int, 20, 30] idle =
     Inr \<lparr> updated = 0,
           werrors = [''upsert retries exceeded (3 rows): OperationalError: timeout''],
           slept = [1 / 2, 1, 2], calls = 4, notifs = (\<lambda>key. None) \<rparr>
   \<and> upsert_results default_settings sleep_limit outage_store
        [1, 2, 3, 4, 5, 6, 7, 8, 9, 10, 11 :: int] idle =
     Inr \<lparr> updated = 3,
           werrors = [''upsert retries exceeded (8 rows): OperationalError: timeout''],
           slept = [1 / 2, 1, 2], calls = 5, notifs = (\<lambda>key. None) \<rparr>
   \<and> execute_payload default_settings sleep_limit late_rejecting_store [10::int, 20, 30] idle =
     Inr \<lparr> updated = 0, werrors = [''upsert error (3 rows): IntegrityError: duplicate key''],
           slept = [1 / 2], calls = 2, notifs = (\<lambda>key. None) \<rparr>"
proof -
  note d = default_settings_fields
  have u1: "[0..<1] = [0]" and u2: "[0..<2] = [0, 1]" and u3: "[0..<3] = [0, 1, 2]"
    by (simp_all add: upt_rec)
  have lim: "max_retries default_settings = 0
             \<or> (1 / 2 :: real) * 2 ^ (nat (max_retries default_settings) - 1) \<le> sleep_limit"
    by (simp add: d sleep_limit_def)
  have ne: "[10::int, 20, 30] \<noteq> []" by simp
  have mr: "0 \<le> max_retries default_settings" "max_retries default_settings \<le> 1024"
    by (simp_all add: d)
  have half: "(0::real) \<le> 1 / 2" by simp
  note rule = retry_policy [OF ne d(4) half mr lim]
  have a: "execute_payload default_settings sleep_limit flaky_store [10::int, 20, 30] idle =
     Inr \<lparr> updated = 3, werrors = [], slept = [1 / 2, 1], calls = 3, notifs = (\<lambda>key. None) \<rparr>"
    using rule [of 2 flaky_store idle]
    by (simp add: d u2 flaky_store_def idle_def)
  have b: "execute_payload default_settings sleep_limit outage_store [10::int, 20, 30] idle =
     Inr \<lparr> updated = 0,
           werrors = [''upsert retries exceeded (3 rows): OperationalError: timeout''],
           slept = [1 / 2, 1, 2], calls = 4, notifs = (\<lambda>key. None) \<rparr>"
    using rule [of 0 outage_store idle "Exn ''OperationalError'' ''timeout''"]
    by (simp add: d u3 outage_store_def idle_def str_int_3)
  have c: "upsert_results default_settings sleep_limit outage_store
        [1, 2, 3, 4, 5, 6, 7, 8, 9, 10, 11 :: int] idle =
     Inr \<lparr> updated = 3,
           werrors = [''upsert retries exceeded (8 rows): OperationalError: timeout''],
           slept = [1 / 2, 1, 2], calls = 5, notifs = (\<lambda>key. None) \<rparr>"
    using rule [of 0 outage_store idle "Exn ''OperationalError'' ''timeout''" 0
                   "[1, 2, 3, 4, 5, 6, 7, 8, 9, 10, 11]"]
    by (simp add: d u3 outage_store_def idle_def str_int_8 micro_chunks_11)
  have e: "execute_payload default_settings sleep_limit late_rejecting_store [10::int, 20, 30] idle =
     Inr \<lparr> updated = 0, werrors = [''upsert error (3 rows): IntegrityError: duplicate key''],
           slept = [1 / 2], calls = 2, notifs = (\<lambda>key. None) \<rparr>"
    using rule [of 1 late_rejecting_store idle undefined undefined undefined
                   "Exn ''IntegrityError'' ''duplicate key''"]
    by (simp add: d u1 late_rejecting_store_def idle_def str_int_3)
  show ?thesis using a b c e by simp
qed

text \<open>
  Claim C8. The outer batch size is clamped to 1..100 (a size in that range is kept, a larger
  one becomes 100, a smaller one 1) and the micro batch size to 1..outer (a size in that range
  is kept, a larger one becomes the outer size, a smaller one 1). A list of \<open>N\<close> successful
  results is cut into \<open>ceil (N / outer)\<close> outer chunks, each cut into micro chunks of at most
  the micro size, one write per micro chunk: the number of writes is the sum over the outer
  chunks of \<open>ceil (length / micro)\<close> (and that many statements are executed, all rows counted,
  when no write fails). For 65 results with sizes 30 and 8 the outer chunks have 30, 30 and 5
  rows and there are 9 writes.
\<close>

theorem batching_plan:
  fixes rs :: "'a list"
  shows "let cfg = clamp_settings b m r s; outer = batch_size cfg; micro = micro_batch_size cfg in
     1 \<le> outer \<and> outer \<le> 100 \<and> 1 \<le> micro \<and> micro \<le> outer \<and>
     (1 \<le> b \<and> b \<le> 100 \<longrightarrow> outer = b) \<and> (100 < b \<longrightarrow> outer = 100) \<and> (b < 1 \<longrightarrow> outer = 1) \<and>
     (1 \<le> m \<and> m \<le> outer \<longrightarrow> micro = m) \<and> (outer < m \<longrightarrow> micro = outer) \<and>
     (m < 1 \<longrightarrow> micro = 1) \<and>
     max_retries cfg = r \<and> base_sleep cfg = s \<and>
     (\<exists>outers. chunks rs outer = Inr outers \<and> concat outers = rs
        \<and> length outers = ceil_div (length rs) (nat outer)
        \<and> (\<forall>oc\<in>set outers. oc \<noteq> [] \<and> int (length oc) \<le> outer
              \<and> (\<exists>micros. chunks oc micro = Inr micros \<and> concat micros = oc
                    \<and> length micros = ceil_div (length oc) (nat micro)
                    \<and> (\<forall>mc\<in>set micros. mc \<noteq> [] \<and> int (length mc) \<le> micro)))
        \<and> upsert_results cfg sleep_max (\<lambda>k. Done) rs st =
            Inr (st\<lparr> updated := updated st + int (length rs),
                     calls := calls st + (\<Sum>oc\<leftarrow>outers. ceil_div (length oc) (nat micro)) \<rparr>)
        \<and> (length rs = 65 \<and> b = 30 \<and> m = 8 \<longrightarrow>
              map length outers = [30, 30, 5]
              \<and> (\<Sum>oc\<leftarrow>outers. ceil_div (length oc) (nat micro)) = 9))"
proof -
  define cfg where "cfg = clamp_settings b m r s"
  define outer where "outer = batch_size cfg"
  define micro where "micro = micro_batch_size cfg"
  define outers where "outers = chunks_from rs (nat outer) 0"
  have bounds: "1 \<le> outer" "outer \<le> 100" "1 \<le> micro" "micro \<le> outer"
    using clamp_settings_bounds [of b m r s] by (simp_all add: cfg_def outer_def micro_def)
  have ov: "outer = max 1 (min b 100)" and mv: "micro = max 1 (min m outer)"
    by (simp_all add: outer_def micro_def cfg_def clamp_settings_def Let_def)
  have clamp_outer: "1 \<le> b \<and> b \<le> 100 \<longrightarrow> outer = b" "100 < b \<longrightarrow> outer = 100"
    "b < 1 \<longrightarrow> outer = 1"
    unfolding ov by simp_all
  have clamp_micro: "1 \<le> m \<and> m \<le> outer \<longrightarrow> micro = m" "outer < m \<longrightarrow> micro = outer"
    "m < 1 \<longrightarrow> micro = 1"
    unfolding mv using bounds(1) by simp_all
  have rest: "max_retries cfg = r" "base_sleep cfg = s"
    by (simp_all add: cfg_def clamp_settings_def Let_def)
  have po: "0 < nat outer" and pm: "0 < nat micro" using bounds by simp_all
  have c: "chunks rs outer = Inr outers"
    using bounds by (simp add: outers_def chunks_positive)
  have wf: "concat outers = rs" "length outers = ceil_div (length rs) (nat outer)"
    "\<forall>oc\<in>set outers. oc \<noteq> [] \<and> length oc \<le> nat outer"
    using chunks_from_wellformed [OF po, of rs] by (simp_all add: outers_def)
  have inner: "\<exists>micros. chunks oc micro = Inr micros \<and> concat micros = oc
                    \<and> length micros = ceil_div (length oc) (nat micro)
                    \<and> (\<forall>mc\<in>set micros. mc \<noteq> [] \<and> int (length mc) \<le> micro)" for oc :: "'a list"
  proof (intro exI conjI)
    show "chunks oc micro = Inr (chunks_from oc (nat micro) 0)"
      using bounds by (simp add: chunks_positive)
    show "concat (chunks_from oc (nat micro) 0) = oc"
      and "length (chunks_from oc (nat micro) 0) = ceil_div (length oc) (nat micro)"
      using chunks_from_wellformed [OF pm, of oc] by simp_all
    show "\<forall>mc\<in>set (chunks_from oc (nat micro) 0). mc \<noteq> [] \<and> int (length mc) \<le> micro"
      using chunks_from_wellformed [OF pm, of oc] bounds(3) by (simp add: le_nat_iff)
  qed
  have outer_part: "\<forall>oc\<in>set outers. oc \<noteq> [] \<and> int (length oc) \<le> outer
              \<and> (\<exists>micros. chunks oc micro = Inr micros \<and> concat micros = oc
                    \<and> length micros = ceil_div (length oc) (nat micro)
                    \<and> (\<forall>mc\<in>set micros. mc \<noteq> [] \<and> int (length mc) \<le> micro))"
  proof (intro ballI conjI)
    fix oc assume "oc \<in> set outers"
    with wf(3) have "oc \<noteq> [] \<and> length oc \<le> nat outer" by (rule bspec)
    then show "oc \<noteq> []" and "int (length oc) \<le> outer"
      using bounds(1) by (simp_all add: le_nat_iff)
    show "\<exists>micros. chunks oc micro = Inr micros \<and> concat micros = oc
                    \<and> length micros = ceil_div (length oc) (nat micro)
                    \<and> (\<forall>mc\<in>set micros. mc \<noteq> [] \<and> int (length mc) \<le> micro)"
      by (rule inner)
  qed
  have sizes: "0 < batch_size cfg" "0 < micro_batch_size cfg"
    using bounds(1,3) by (simp_all add: outer_def micro_def)
  have len: "length (micro_chunks cfg rs) = (\<Sum>oc\<leftarrow>outers. ceil_div (length oc) (nat micro))"
    using micro_chunks_wellformed(3) [OF sizes, of rs]
    by (simp add: outers_def outer_def micro_def)
  have "upsert_results cfg sleep_max (\<lambda>k. Done) rs st =
         Inr (st\<lparr> updated := updated st + int (length rs),
                  calls := calls st + length (micro_chunks cfg rs) \<rparr>)"
    using sizes by (rule upsert_results_done) simp
  then have up: "upsert_results cfg sleep_max (\<lambda>k. Done) rs st =
            Inr (st\<lparr> updated := updated st + int (length rs),
                     calls := calls st + (\<Sum>oc\<leftarrow>outers. ceil_div (length oc) (nat micro)) \<rparr>)"
    by (simp only: len)
  have scen: "map length outers = [30, 30, 5]
              \<and> (\<Sum>oc\<leftarrow>outers. ceil_div (length oc) (nat micro)) = 9"
    if h: "length rs = 65 \<and> b = 30 \<and> m = 8"
  proof -
    have o: "outer = 30" and mi: "micro = 8"
      using h by (simp_all add: outer_def micro_def cfg_def clamp_settings_def Let_def)
    have l: "map length outers = [30, 30, 5]"
      using h chunks_from_65 [of rs] by (simp add: outers_def o)
    have "(\<Sum>oc\<leftarrow>outers. ceil_div (length oc) (nat micro))
          = sum_list (map (\<lambda>n. ceil_div n 8) (map length outers))"
      by (simp add: mi comp_def)
    also have "\<dots> = 9" unfolding l by (simp add: ceil_div_def)
    finally show ?thesis using l by simp
  qed
  have scen_imp: "length rs = 65 \<and> b = 30 \<and> m = 8 \<longrightarrow>
              map length outers = [30, 30, 5]
              \<and> (\<Sum>oc\<leftarrow>outers. ceil_div (length oc) (nat micro)) = 9"
    using scen by (rule impI)
  show ?thesis
    unfolding Let_def cfg_def [symmetric] outer_def [symmetric] micro_def [symmetric]
    by (intro conjI exI [of _ outers])
       (rule bounds clamp_outer clamp_micro rest c wf(1) wf(2) outer_part up scen_imp)+
qed

theorem batching_plan_witness:
  "(\<exists>outers. chunks [1 .. 65 :: int] 30 = Inr outers \<and> map length outers = [30, 30, 5])
   \<and> upsert_results (clamp_settings 30 8 3 (Finite (1 / 2))) sleep_limit (\<lambda>k. Done)
         [1 .. 65 :: int] idle =
       Inr \<lparr> updated = 65, werrors = [], slept = [], calls = 9, notifs = (\<lambda>key. None) \<rparr>
   \<and> batch_size (clamp_settings 1000 8 3 (Finite (1 / 2))) = 100
   \<and> micro_batch_size (clamp_settings 1000 200 3 (Finite (1 / 2))) = 100
   \<and> batch_size (clamp_settings 0 8 3 (Finite (1 / 2))) = 1
   \<and> micro_batch_size (clamp_settings 0 8 3 (Finite (1 / 2))) = 1
   \<and> batch_size (clamp_settings 50 0 3 (Finite (1 / 2))) = 50
   \<and> micro_batch_size (clamp_settings 50 0 3 (Finite (1 / 2))) = 1
   \<and> micro_batch_size (clamp_settings 50 20 3 (Finite (1 / 2))) = 20"
proof -
  have cfg: "batch_size (clamp_settings 30 8 3 (Finite (1 / 2))) = 30"
    "micro_batch_size (clamp_settings 30 8 3 (Finite (1 / 2))) = 8"
    by (simp_all add: clamp_settings_def)
  have a: "(\<exists>outers. chunks [1 .. 65 :: int] 30 = Inr outers \<and> map length outers = [30, 30, 5])
   \<and> upsert_results (clamp_settings 30 8 3 (Finite (1 / 2))) sleep_limit (\<lambda>k. Done)
         [1 .. 65 :: int] idle =
       Inr \<lparr> updated = 65, werrors = [], slept = [], calls = 9, notifs = (\<lambda>key. None) \<rparr>"
    using batching_plan [where b = 30 and m = 8 and r = 3 and s = "Finite (1 / 2)"
                           and rs = "[1 .. 65 :: int]" and st = idle and sleep_max = sleep_limit]
    unfolding Let_def cfg
    by (elim conjE exE) (simp add: idle_def)
  have b: "batch_size (clamp_settings 1000 8 3 (Finite (1 / 2))) = 100"
    using batching_plan [where b = 1000 and m = 8 and r = 3 and s = "Finite (1 / 2)"
                           and rs = "[] :: int list" and st = idle and sleep_max = sleep_limit]
    unfolding Let_def by (elim conjE exE) simp
  have c: "micro_batch_size (clamp_settings 1000 200 3 (Finite (1 / 2))) = 100"
    using batching_plan [where b = 1000 and m = 200 and r = 3 and s = "Finite (1 / 2)"
                           and rs = "[] :: int list" and st = idle and sleep_max = sleep_limit]
    unfolding Let_def by (elim conjE exE) simp
  have d: "batch_size (clamp_settings 0 8 3 (Finite (1 / 2))) = 1
           \<and> micro_batch_size (clamp_settings 0 8 3 (Finite (1 / 2))) = 1"
    using batching_plan [where b = 0 and m = 8 and r = 3 and s = "Finite (1 / 2)"
                           and rs = "[] :: int list" and st = idle and sleep_max = sleep_limit]
    unfolding Let_def by (elim conjE exE) simp
  have e: "batch_size (clamp_settings 50 0 3 (Finite (1 / 2))) = 50
           \<and> micro_batch_size (clamp_settings 50 0 3 (Finite (1 / 2))) = 1"
    using batching_plan [where b = 50 and m = 0 and r = 3 and s = "Finite (1 / 2)"
                           and rs = "[] :: int list" and st = idle and sleep_max = sleep_limit]
    unfolding Let_def by (elim conjE exE) simp
  have f: "micro_batch_size (clamp_settings 50 20 3 (Finite (1 / 2))) = 20"
    using batching_plan [where b = 50 and m = 20 and r = 3 and s = "Finite (1 / 2)"
                           and rs = "[] :: int list" and st = idle and sleep_max = sleep_limit]
    unfolding Let_def by (elim conjE exE) simp
  show ?thesis using a b c d e f by simp
qed

section \<open>Properties of the staleness decision\<close>






text \<open>
  Claim C10. A successful result whose last submission date is a non-empty string that does
  not parse as \<^verbatim>\<open>YYYY-MM-DD\<close> is kept among the results and gets a notification with the
  fixed reason queued for upsert: nothing is raised, the result is not skipped, and no removal
  is queued.
\<close>

theorem unparsable_date_is_stale:
  assumes "lc_lastsubmission st = Some s" and "s \<noteq> []" and "strptime_ymd s = None"
  shows "collect_step today tbl c (r, Some st, n, None) =
           c\<lparr> results := results c @ [(r, Some st, n)],
              to_add_notif := to_add_notif c @
                [\<lparr> table_name = tbl, rollnumber = r, notif_name = n,
                   reason = ''No LC submission in last 3 days'' \<rparr>] \<rparr>"
  using assms
  by (simp add: record_result_def stale_flag_def last_submission_of_def reason_text_def Let_def)

lemma strptime_feb30: "strptime_ymd ''2024-02-30'' = None" by code_simp





theorem unparsable_date_is_stale_witness:
  "collect_step 19783 ''roster'' no_results (5, Some (dated ''2024-02-30''), ''Eve'', None) =
     \<lparr> results = [(5, Some (dated ''2024-02-30''), ''Eve'')], errors = [],
       to_add_notif = [\<lparr> table_name = ''roster'', rollnumber = 5, notif_name = ''Eve'',
                          reason = ''No LC submission in last 3 days'' \<rparr>],
       to_remove_notif = [] \<rparr>"
proof -
  have "lc_lastsubmission (dated ''2024-02-30'') = Some ''2024-02-30''"
    by (simp add: dated_def empty_stats_def)
  from unparsable_date_is_stale [OF this _ strptime_feb30, of 19783 "''roster''" no_results 5 "''Eve''"]
  show ?thesis by (simp add: no_results_def)
qed


section \<open>Properties of the streak computation\<close>

lemma fromtimestamp_day:
  "fromtimestamp ts = Some d \<Longrightarrow> d = ts div 86400 \<and> date_min \<le> d \<and> d \<le> date_max"
  by (auto simp: fromtimestamp_def Let_def split: if_splits)

lemma streak_days_Cons:
  "streak_days ((k, v) # r) acc =
     (if v = JNull \<or> \<not> isdigit (strip k) then streak_days r acc
      else case int_of_str (strip k) of
             None \<Rightarrow> None
           | Some ts \<Rightarrow>
               if ts \<le> 0 then streak_days r acc
               else case fromtimestamp ts of
                      None \<Rightarrow> None
                    | Some d \<Rightarrow> streak_days r (List.insert d acc))"
  by (simp add: Let_def split: option.splits)


lemma streak_days_range:
  "streak_days items acc = Some days \<Longrightarrow> \<forall>d\<in>set acc. 0 \<le> d \<and> d \<le> date_max \<Longrightarrow>
   \<forall>d\<in>set days. 0 \<le> d \<and> d \<le> date_max"
proof (induction items arbitrary: acc days)
  case Nil
  then show ?case by simp
next
  case (Cons kv r)
  obtain k v where kv: "kv = (k, v)" by (cases kv)
  show ?case
  proof (cases "v = JNull \<or> \<not> isdigit (strip k)")
    case True
    with Cons.prems have "streak_days r acc = Some days"
      by (simp add: kv streak_days_Cons del: streak_days.simps)
    then show ?thesis using Cons.prems(2) by (rule Cons.IH)
  next
    case False
    with Cons.prems obtain ts where ts: "int_of_str (strip k) = Some ts"
      by (auto simp: kv streak_days_Cons simp del: streak_days.simps split: option.splits)
    show ?thesis
    proof (cases "ts \<le> 0")
      case True
      with Cons.prems False ts have "streak_days r acc = Some days"
        by (simp add: kv streak_days_Cons del: streak_days.simps)
      then show ?thesis using Cons.prems(2) by (rule Cons.IH)
    next
      case pos: False
      with Cons.prems False ts obtain d where d: "fromtimestamp ts = Some d"
        and rest: "streak_days r (List.insert d acc) = Some days"
        by (auto simp: kv streak_days_Cons simp del: streak_days.simps split: option.splits)
      have "d = ts div 86400 \<and> d \<le> date_max" using d fromtimestamp_day by blast
      moreover have "0 \<le> ts div 86400" using pos by simp
      ultimately have "\<forall>x\<in>set (List.insert d acc). 0 \<le> x \<and> x \<le> date_max"
        using Cons.prems(2) by simp
      with rest show ?thesis by (rule Cons.IH)
    qed
  qed
qed

lemma min_date_least:
  assumes "days \<noteq> []"
  shows "min_date days \<in> set days \<and> (\<forall>d\<in>set days. min_date days \<le> d)"
proof -
  from assms obtain x xs where d: "days = x # xs" by (cases days) auto
  have "min_date days = Min (set days)"
    using Min.set_eq_fold [of x xs] by (simp add: d min_date_def)
  then show ?thesis using assms by (simp add: Min_in)
qed

lemma max_date_greatest:
  assumes "days \<noteq> []"
  shows "max_date days \<in> set days \<and> (\<forall>d\<in>set days. d \<le> max_date days)"
proof -
  from assms obtain x xs where d: "days = x # xs" by (cases days) auto
  have "max_date days = Max (set days)"
    using Max.set_eq_fold [of x xs] by (simp add: d max_date_def)
  then show ?thesis using assms by (simp add: Max_in)
qed

lemma longest_run_step:
  "d \<le> e \<Longrightarrow> e < date_max \<Longrightarrow>
   longest_run days d e cur mx =
   longest_run days (d + 1) e (if d \<in> set days then cur + 1 else 0)
     (if d \<in> set days then max mx (cur + 1) else mx)"
  by (subst longest_run.simps) (simp add: date_succ_def Let_def)

lemma longest_run_stop: "e < d \<Longrightarrow> longest_run days d e cur mx = Some mx"
  by (subst longest_run.simps) simp

lemma longest_run_total:
  "e < date_max \<Longrightarrow> \<exists>m. longest_run days d e cur mx = Some m \<and> mx \<le> m"
proof (induction "nat (e + 1 - d)" arbitrary: d cur mx)
  case 0
  then have "e < d" by simp
  then show ?case by (simp add: longest_run_stop)
next
  case (Suc n)
  then have de: "d \<le> e" and n: "n = nat (e + 1 - (d + 1))" by simp_all
  from Suc(1) [OF n Suc(3)]
  obtain m where "longest_run days (d + 1) e (if d \<in> set days then cur + 1 else 0)
                    (if d \<in> set days then max mx (cur + 1) else mx) = Some m"
    and "(if d \<in> set days then max mx (cur + 1) else mx) \<le> m" by blast
  then show ?case using de Suc(3) by (auto simp: longest_run_step split: if_splits)
qed

lemma longest_run_covers:
  "e < date_max \<Longrightarrow> {d..b} \<subseteq> set days \<Longrightarrow> d \<le> b \<Longrightarrow> b \<le> e \<Longrightarrow>
   longest_run days d e cur mx = Some m \<Longrightarrow> cur + (b - d + 1) \<le> m"
proof (induction "nat (b - d)" arbitrary: d cur mx)
  case 0
  then have db: "d = b" and din: "d \<in> set days" by auto
  from 0 db din have "longest_run days (d + 1) e (cur + 1) (max mx (cur + 1)) = Some m"
    by (simp add: longest_run_step)
  with longest_run_total [OF 0(2), of days "d + 1" "cur + 1" "max mx (cur + 1)"]
  show ?case using db by auto
next
  case (Suc n)
  then have lt: "d < b" and n: "n = nat (b - (d + 1))" and din: "d \<in> set days" by auto
  from Suc.prems din lt have run: "longest_run days (d + 1) e (cur + 1) (max mx (cur + 1)) = Some m"
    by (simp add: longest_run_step)
  have sub: "{d + 1..b} \<subseteq> set days" using Suc.prems(2) by auto
  from Suc(1) [OF n Suc.prems(1) sub _ Suc.prems(4) run] lt
  show ?case by simp
qed

lemma longest_run_ge_run:
  "e < date_max \<Longrightarrow> {a..b} \<subseteq> set days \<Longrightarrow> d \<le> a \<Longrightarrow> a \<le> b \<Longrightarrow> b \<le> e \<Longrightarrow> 0 \<le> cur \<Longrightarrow>
   longest_run days d e cur mx = Some m \<Longrightarrow> b - a + 1 \<le> m"
proof (induction "nat (a - d)" arbitrary: d cur mx)
  case 0
  then have "d = a" by simp
  with 0 longest_run_covers [of e a b days cur mx m] show ?case by simp
next
  case (Suc n)
  then have lt: "d < a" and n: "n = nat (a - (d + 1))" by auto
  let ?c = "if d \<in> set days then cur + 1 else 0"
  let ?m = "if d \<in> set days then max mx (cur + 1) else mx"
  from Suc.prems lt have run: "longest_run days (d + 1) e ?c ?m = Some m"
    by (simp add: longest_run_step)
  have c0: "0 \<le> ?c" using Suc.prems(6) by simp
  from Suc(1) [OF n Suc.prems(1,2) _ Suc.prems(4,5) c0 run] lt
  show ?case by simp
qed

lemma current_run_out: "d \<notin> set days \<Longrightarrow> current_run days d cur = Some cur"
  by (subst current_run.simps) simp

lemma current_run_step:
  "d \<in> set days \<Longrightarrow> 0 \<le> d \<Longrightarrow> current_run days d cur = current_run days (d - 1) (cur + 1)"
  by (subst current_run.simps) (simp add: date_pred_def date_min_def)

lemma current_run_total:
  "\<forall>x\<in>set days. 0 \<le> x \<Longrightarrow>
   \<exists>c. current_run days t cur = Some c \<and> cur \<le> c \<and> {t - (c - cur) + 1..t} \<subseteq> set days
       \<and> (t \<notin> set days \<longrightarrow> c = cur)"
proof (induction "nat (t + 1)" arbitrary: t cur)
  case 0
  then have "t \<notin> set days" by auto
  then show ?case by (simp add: current_run_out)
next
  case (Suc n)
  show ?case
  proof (cases "t \<in> set days")
    case False
    then show ?thesis by (simp add: current_run_out)
  next
    case True
    with Suc.prems have t0: "0 \<le> t" by simp
    with Suc(2) have n: "n = nat (t - 1 + 1)" by simp
    from Suc(1) [OF n Suc.prems, of "cur + 1"]
    obtain c where c: "current_run days (t - 1) (cur + 1) = Some c" "cur + 1 \<le> c"
      "{t - 1 - (c - (cur + 1)) + 1..t - 1} \<subseteq> set days" by blast
    have "{t - (c - cur) + 1..t} \<subseteq> insert t {t - 1 - (c - (cur + 1)) + 1..t - 1}" by auto
    with c(3) True have "{t - (c - cur) + 1..t} \<subseteq> set days" by auto
    with c True t0 show ?thesis by (simp add: current_run_step)
  qed
qed

lemma longest_run_overflow:
  "d \<le> date_max \<Longrightarrow> longest_run days d date_max cur mx = None"
proof (induction "nat (date_max - d)" arbitrary: d cur mx)
  case 0
  then have "d = date_max" by simp
  then show ?case by (subst longest_run.simps) (simp add: date_succ_def)
next
  case (Suc n)
  then have lt: "d < date_max" and n: "n = nat (date_max - (d + 1))" by simp_all
  from lt have le: "d + 1 \<le> date_max" by simp
  have "longest_run days d date_max cur mx =
        longest_run days (d + 1) date_max (if d \<in> set days then cur + 1 else 0)
          (if d \<in> set days then max mx (cur + 1) else mx)"
    using lt by (subst longest_run.simps) (simp add: date_succ_def Let_def)
  then show ?case using Suc(1) [OF n le] by simp
qed

lemma streak_days_empty_items: "streak_days [] [] = Some days \<Longrightarrow> days = []"
  by simp

text \<open>
  Claim C5, as amended. For every non-empty set of activity days produced by the streak
  computation whose days all lie before 9999-12-31, both streaks are computed, the longest
  streak is at least the current streak, both are at least 0, and the current streak is 0
  whenever today is not in the set. When 9999-12-31, the last date a \<^verbatim>\<open>date\<close> can hold, is in
  the set, stepping past it raises and both streaks are null.
\<close>

theorem streak_bounds:
  assumes "streak_days items [] = Some days" and "days \<noteq> []"
  shows "((\<forall>d\<in>set days. d < date_max) \<longrightarrow>
            (\<exists>cur longest. calc_streaks today (JDict items) = (Some cur, Some longest)
                \<and> 0 \<le> cur \<and> cur \<le> longest \<and> (today \<notin> set days \<longrightarrow> cur = 0)))
       \<and> (date_max \<in> set days \<longrightarrow> calc_streaks today (JDict items) = (None, None))"
proof (intro conjI impI)
  have items: "items \<noteq> []" using assms by auto
  have rng: "\<forall>d\<in>set days. 0 \<le> d \<and> d \<le> date_max"
    using streak_days_range [OF assms(1)] by simp
  note mn = min_date_least [OF assms(2)] and mx = max_date_greatest [OF assms(2)]
  {
    assume lt: "\<forall>d\<in>set days. d < date_max"
    then have e: "max_date days < date_max" using mx by blast
    from longest_run_total [OF e, of days "min_date days" 0 0]
    obtain m where m: "longest_run days (min_date days) (max_date days) 0 0 = Some m" "0 \<le> m"
      by blast
    from rng have "\<forall>x\<in>set days. 0 \<le> x" by blast
    from current_run_total [OF this, of today 0]
    obtain c where c: "current_run days today 0 = Some c" "0 \<le> c"
      "{today - (c - 0) + 1..today} \<subseteq> set days" "today \<notin> set days \<longrightarrow> c = 0" by blast
    have "c \<le> m"
    proof (cases "c = 0")
      case True
      then show ?thesis using m(2) by simp
    next
      case False
      with c(2) have pos: "0 < c" by simp
      let ?a = "today - c + 1"
      have sub: "{?a..today} \<subseteq> set days" using c(3) by simp
      have ain: "?a \<in> set days" and bin: "today \<in> set days" using sub pos by auto
      have "today - ?a + 1 \<le> m"
        using e sub _ _ _ _ m(1)
      proof (rule longest_run_ge_run)
        show "min_date days \<le> ?a" using mn ain by blast
        show "?a \<le> today" using pos by simp
        show "today \<le> max_date days" using mx bin by blast
        show "(0::int) \<le> 0" by simp
      qed
      then show ?thesis by simp
    qed
    with m c items assms
    show "\<exists>cur longest. calc_streaks today (JDict items) = (Some cur, Some longest)
                \<and> 0 \<le> cur \<and> cur \<le> longest \<and> (today \<notin> set days \<longrightarrow> cur = 0)"
      by (simp add: calc_streaks_def)
  }
  {
    assume top: "date_max \<in> set days"
    with rng mx have "max_date days = date_max" by (meson order_antisym)
    moreover have "min_date days \<le> date_max" using rng mn by blast
    ultimately have "longest_run days (min_date days) (max_date days) 0 0 = None"
      by (simp add: longest_run_overflow)
    with items assms show "calc_streaks today (JDict items) = (None, None)"
      by (simp add: calc_streaks_def)
  }
qed


lemma week_days: "streak_days week_calendar [] = Some [19672, 19676, 19675, 19674]"
  by code_simp

lemma last_day: "streak_days last_day_calendar [] = Some [2932896]"
  by code_simp


theorem streak_bounds_counterexample:
  "streak_days last_day_calendar [] = Some [2932896]
   \<and> calc_streaks 19675 (JDict last_day_calendar) = (None, None)"
  by code_simp

theorem streak_bounds_witness:
  "(\<exists>cur longest. calc_streaks 19675 (JDict week_calendar) = (Some cur, Some longest)
       \<and> 0 \<le> cur \<and> cur \<le> longest)
   \<and> (\<exists>longest. calc_streaks 19673 (JDict week_calendar) = (Some 0, Some longest))
   \<and> calc_streaks 19675 (JDict last_day_calendar) = (None, None)"
proof -
  have ne: "[19672, 19676, 19675, 19674 :: int] \<noteq> []" by simp
  have a: "\<exists>cur longest. calc_streaks 19675 (JDict week_calendar) = (Some cur, Some longest)
       \<and> 0 \<le> cur \<and> cur \<le> longest"
    using streak_bounds [OF week_days ne, of 19675] by (auto simp: date_max_def)
  have b: "\<exists>longest. calc_streaks 19673 (JDict week_calendar) = (Some 0, Some longest)"
    using streak_bounds [OF week_days ne, of 19673] by (auto simp: date_max_def)
  have c: "calc_streaks 19675 (JDict last_day_calendar) = (None, None)"
    using streak_bounds [OF last_day, of 19675] by (simp add: date_max_def)
  from a b c show ?thesis by blast
qed




section \<open>Properties of the date normalisation\<close>

text \<open>
  Claim C6, as amended. The guard for milliseconds is in the normalisation of the history
  keys only (a value above \<open>10 ^ 10\<close> is divided by 1000). There, a digit key of epoch seconds
  \<open>secs\<close> with \<open>10 ^ 7 < secs \<le> 10 ^ 10\<close> and a digit key of the same instant in epoch
  milliseconds are stored under the identical calendar date. The date normalisation of the
  last commit, \<^verbatim>\<open>_to_date_only\<close>, reads every digit string as seconds.
\<close>

theorem history_milliseconds:
  assumes "isdigit (strip a)" and "isdigit (strip b)"
      and "int_of_str (strip a) = Some secs" and "int_of_str (strip b) = Some ms"
      and "ms div 1000 = secs" and "10 ^ 7 < secs" and "secs \<le> 10 ^ 10"
  shows "history_date (strip a) = Some (isoformat (secs div 86400))
       \<and> history_date (strip b) = Some (isoformat (secs div 86400))
       \<and> lc_history_of (JDict [(b, v)]) = lc_history_of (JDict [(a, v)])
       \<and> to_date_only lib (JStr a) = map_option isoformat (fromtimestamp secs)
       \<and> to_date_only lib (JStr b) = map_option isoformat (fromtimestamp ms)"
proof -
  have big: "10 ^ 10 < ms" using assms(5,6) by simp
  have "0 \<le> secs div 86400" "secs div 86400 \<le> 115740" using assms(6,7) by simp_all
  then have ft: "fromtimestamp secs = Some (secs div 86400)"
    by (simp add: fromtimestamp_def date_min_def date_max_def)
  have ha: "history_date (strip a) = Some (isoformat (secs div 86400))"
    using assms(3,7) ft by (simp add: history_date_def)
  have hb: "history_date (strip b) = Some (isoformat (secs div 86400))"
    using assms(4,5) big ft by (simp add: history_date_def)
  have "lc_history_of (JDict [(b, v)]) = lc_history_of (JDict [(a, v)])"
    using assms(1,2) ha hb by (simp add: lc_history_of_def Let_def)
  moreover have "to_date_only lib (JStr a) = map_option isoformat (fromtimestamp secs)"
    using assms(1,3) by (cases "fromtimestamp secs") (auto simp: to_date_only_def Let_def isdigit_def)
  moreover have "to_date_only lib (JStr b) = map_option isoformat (fromtimestamp ms)"
    using assms(2,4) by (cases "fromtimestamp ms") (auto simp: to_date_only_def Let_def isdigit_def)
  ultimately show ?thesis using ha hb by simp
qed

lemma isoformat_nov14: "isoformat 19675 = ''2023-11-14''"
  by code_simp

lemma key_seconds: "strip ''1700000000'' = ''1700000000'' \<and> isdigit ''1700000000''
    \<and> int_of_str ''1700000000'' = Some 1700000000"
  by code_simp

lemma key_millis: "strip ''1700000000123'' = ''1700000000123'' \<and> isdigit ''1700000000123''
    \<and> int_of_str ''1700000000123'' = Some 1700000000123"
  by code_simp

theorem history_milliseconds_witness:
  "history_date ''1700000000'' = Some ''2023-11-14''
   \<and> history_date ''1700000000123'' = Some ''2023-11-14''
   \<and> lc_history_of (JDict [(''1700000000123'', JInt 4)]) =
     lc_history_of (JDict [(''1700000000'', JInt 4)])"
  using history_milliseconds [of "''1700000000''" "''1700000000123''" 1700000000 1700000000123
          "JInt 4" stub_lib]
        key_seconds key_millis
  by (simp add: isoformat_nov14)

theorem date_normalisation_counterexample:
  "to_date_only stub_lib (JStr ''1700000000'') = Some ''2023-11-14''
   \<and> to_date_only stub_lib (JStr ''1700000000000'') = None
   \<and> history_date ''86400'' = Some ''1970-01-02''
   \<and> history_date ''86400000'' = Some ''1972-09-27''"
  by code_simp


section \<open>Properties of compute_stats\<close>






text \<open>
  Claim C3 fails on the code. A language payload whose \<^verbatim>\<open>matchedUser\<close> is null makes
  \<^verbatim>\<open>compute_stats\<close> raise \<^verbatim>\<open>AttributeError\<close> (the default of \<^verbatim>\<open>.get("matchedUser", {})\<close>
  covers a missing key, not a null value), and a version-control payload whose
  \<^verbatim>\<open>original_repos\<close> is a number makes it raise \<^verbatim>\<open>TypeError\<close> at \<^verbatim>\<open>len\<close>.
\<close>

theorem compute_stats_raises:
  "compute_stats lib today [] [] [(''matchedUser'', JNull)] [] git_contri lc_calendar =
     Inl (no_attribute JNull ''get'')
   \<and> compute_stats lib today [(''original_repos'', JInt 5)] lc_prof lc_lang lc_bdg git_contri lc_calendar =
     Inl (Exn ''TypeError'' (''object of type '' @ [CHR 0x27] @ ''int'' @ [CHR 0x27] @ '' has no len()''))"
  by (simp add: compute_stats_def andthen_def dict_get_def dict_get_default_def py_or_def
        submission_recency_def languages_of_def)


section \<open>Properties of the fetch stage\<close>

lemma no_handle_row_skipped:
  "or_empty_strip (github_username r) = [] \<Longrightarrow> or_empty_strip (leetcode_username r) = [] \<Longrightarrow>
   prepare_work (r # rows) = prepare_work rows"
  by (simp add: Let_def)

lemma failed_fetch_recorded:
  "fetch_body P lib today item = Inl e \<Longrightarrow>
   collect_step today tbl c (fetch_and_compute P lib today item) =
     c\<lparr> errors := errors c @
           [''roll='' @ str_int (roll item) @ '': '' @ exn_name e @ '': '' @ exn_text e] \<rparr>"
  by (simp add: fetch_and_compute_def)

lemma single_handle_fetch_raises:
  "gh item = [] \<or> lc item = [] \<Longrightarrow> \<exists>e. fetch_body P lib today item = Inl e"
  by (auto simp: fetch_body_def andthen_def read_local_def split: sum.splits)

lemma sort_two:
  assumes "sort order = [0, Suc 0]"
  shows "order = [0, Suc 0] \<or> order = [Suc 0, 0]"
proof -
  have "length order = 2" using assms by (metis length_sort length_Cons list.size(3) numeral_2_eq_2)
  then obtain a b where o: "order = [a, b]"
    by (metis (no_types) length_0_conv length_Suc_conv numeral_2_eq_2)
  have "set order = {0, Suc 0}" using assms by (metis set_sort list.simps(15) list.set(1))
  then show ?thesis unfolding o by (auto simp: doubleton_eq_iff)
qed

lemma as_completed_two:
  "as_completed order [x, y] = [x, y] \<or> as_completed order [x, y] = [y, x]"
proof (cases "sort order = [0, Suc 0]")
  case True
  with sort_two [OF True] show ?thesis by (auto simp: as_completed_def upt_rec)
next
  case False
  then show ?thesis by (simp add: as_completed_def upt_rec)
qed

text \<open>
  Claim C2 fails on the code. \<^verbatim>\<open>git_contri\<close> and \<^verbatim>\<open>lc_calendar\<close> are assigned only under the
  \<^verbatim>\<open>if\<close> of their handle, so for an identity with one handle the call of \<^verbatim>\<open>compute_stats\<close>
  reads an unbound local variable: although every provider call returns normally, the
  identity ends as an error string and not as a success tuple, in whichever order the two
  fetches complete. (The text of the exception is that of CPython 3.11 and later.)
\<close>

theorem single_handle_fetch_fails:
  "fetch_stage steady_providers stub_lib 19675 ''roster'' [0, 1] [github_only_row, leetcode_only_row] =
     \<lparr> results = [],
       errors = [''roll=1: UnboundLocalError: cannot access local variable '' @ [CHR 0x27]
                   @ ''lc_calendar'' @ [CHR 0x27] @ '' where it is not associated with a value'',
                 ''roll=2: UnboundLocalError: cannot access local variable '' @ [CHR 0x27]
                   @ ''git_contri'' @ [CHR 0x27] @ '' where it is not associated with a value''],
       to_add_notif = [], to_remove_notif = [] \<rparr>
   \<and> fetch_stage steady_providers stub_lib 19675 ''roster'' [1, 0] [github_only_row, leetcode_only_row] =
     \<lparr> results = [],
       errors = [''roll=2: UnboundLocalError: cannot access local variable '' @ [CHR 0x27]
                   @ ''git_contri'' @ [CHR 0x27] @ '' where it is not associated with a value'',
                 ''roll=1: UnboundLocalError: cannot access local variable '' @ [CHR 0x27]
                   @ ''lc_calendar'' @ [CHR 0x27] @ '' where it is not associated with a value''],
       to_add_notif = [], to_remove_notif = [] \<rparr>
   \<and> results (fetch_stage steady_providers stub_lib 19675 ''roster'' order
                 [github_only_row, leetcode_only_row]) = []
   \<and> length (errors (fetch_stage steady_providers stub_lib 19675 ''roster'' order
                        [github_only_row, leetcode_only_row])) = 2"
proof -
  let ?P = steady_providers and ?rows = "[github_only_row, leetcode_only_row]"
  let ?e1 = "''roll=1: UnboundLocalError: cannot access local variable '' @ [CHR 0x27]
                   @ ''lc_calendar'' @ [CHR 0x27] @ '' where it is not associated with a value''"
  let ?e2 = "''roll=2: UnboundLocalError: cannot access local variable '' @ [CHR 0x27]
                   @ ''git_contri'' @ [CHR 0x27] @ '' where it is not associated with a value''"
  let ?f1 = "(1, None, ''Alice'', Some ?e1) :: fetched"
  let ?f2 = "(2, None, ''Bob'', Some ?e2) :: fetched"
  have futures: "map (fetch_and_compute ?P stub_lib 19675) (prepare_work ?rows) = [?f1, ?f2]"
    by code_simp
  have c12: "collect 19675 ''roster'' no_results [?f1, ?f2] =
             \<lparr> results = [], errors = [?e1, ?e2], to_add_notif = [], to_remove_notif = [] \<rparr>"
    by code_simp
  have c21: "collect 19675 ''roster'' no_results [?f2, ?f1] =
             \<lparr> results = [], errors = [?e2, ?e1], to_add_notif = [], to_remove_notif = [] \<rparr>"
    by code_simp
  have o01: "as_completed [0, 1] [?f1, ?f2] = [?f1, ?f2]"
    and o10: "as_completed [1, 0] [?f1, ?f2] = [?f2, ?f1]"
    by (simp_all add: as_completed_def upt_rec)
  have a: "fetch_stage ?P stub_lib 19675 ''roster'' [0, 1] ?rows =
           \<lparr> results = [], errors = [?e1, ?e2], to_add_notif = [], to_remove_notif = [] \<rparr>"
    unfolding fetch_stage_def futures o01 by (rule c12)
  have b: "fetch_stage ?P stub_lib 19675 ''roster'' [1, 0] ?rows =
           \<lparr> results = [], errors = [?e2, ?e1], to_add_notif = [], to_remove_notif = [] \<rparr>"
    unfolding fetch_stage_def futures o10 by (rule c21)
  have c: "results (fetch_stage ?P stub_lib 19675 ''roster'' order ?rows) = []
           \<and> length (errors (fetch_stage ?P stub_lib 19675 ''roster'' order ?rows)) = 2"
    using as_completed_two [of order ?f1 ?f2]
    unfolding fetch_stage_def futures by (auto simp only: c12 c21 collected.simps list.size length_Cons)
  from a b c show ?thesis by (intro conjI) simp_all
qed

end

